theory Spec2Isabelle
  imports Complex_Main "HOL-Library.Multiset"
begin

section \<open>Data model of \<^verbatim>\<open>src/rrweb.ts\<close>\<close>

text \<open>
  Values of TypeScript type \<^verbatim>\<open>any\<close> (the \<^verbatim>\<open>data\<close> payload of a raw rrweb event, the
  values of a \<^verbatim>\<open>details\<close> dictionary) are JSON values. An absent property
  (\<^verbatim>\<open>undefined\<close>) is \<open>None\<close> of an option. Numbers are integers: timestamps in
  milliseconds and pixel coordinates, on which the \<^verbatim>\<open>+\<close>, \<^verbatim>\<open>-\<close>, \<^verbatim>\<open><\<close> and
  \<^verbatim>\<open>Math.abs\<close> of the source are exact. Fields that the interfaces of the source
  declare with a type (\<^verbatim>\<open>string\<close>, \<^verbatim>\<open>number\<close>, \<^verbatim>\<open>Record<string, string>\<close>) hold values of
  that type; where the source copies an \<^verbatim>\<open>any\<close> into such a field, the casts
  \<open>asStr\<close>, \<open>asNum\<close> and \<open>asAttrs\<close> below read a value of another JSON type as absent.
\<close>

datatype json =
  JNull | JBool bool | JNum int | JStr string | JArr "json list" | JObj "(string \<times> json) list"

text \<open>JavaScript truthiness, for \<^verbatim>\<open>if (v)\<close>, \<^verbatim>\<open>a && b\<close> and \<^verbatim>\<open>a || b\<close>.\<close>

fun truthy :: "json \<Rightarrow> bool" where
  "truthy JNull = False"
| "truthy (JBool b) = b"
| "truthy (JNum n) = (n \<noteq> 0)"
| "truthy (JStr s) = (s \<noteq> [])"
| "truthy (JArr xs) = True"
| "truthy (JObj kvs) = True"

definition truthyOpt :: "json option \<Rightarrow> bool" where
  "truthyOpt v = (case v of None \<Rightarrow> False | Some j \<Rightarrow> truthy j)"

text \<open>Reading a named property \<^verbatim>\<open>v.k\<close> of a value that is neither null nor undefined.\<close>

fun jget :: "json \<Rightarrow> string \<Rightarrow> json option" where
  "jget (JObj kvs) k = map_of kvs k"
| "jget v k = None"

definition asStr :: "json option \<Rightarrow> string option" where
  "asStr v = (case v of Some (JStr s) \<Rightarrow> Some s | _ \<Rightarrow> None)"

definition asNum :: "json option \<Rightarrow> int option" where
  "asNum v = (case v of Some (JNum n) \<Rightarrow> Some n | _ \<Rightarrow> None)"

fun strEntries :: "(string \<times> json) list \<Rightarrow> (string \<times> string) list" where
  "strEntries [] = []"
| "strEntries ((k, JStr s) # kvs) = (k, s) # strEntries kvs"
| "strEntries (kv # kvs) = strEntries kvs"

definition asAttrs :: "json option \<Rightarrow> (string \<times> string) list option" where
  "asAttrs v = (case v of Some (JObj kvs) \<Rightarrow> Some (strEntries kvs) | _ \<Rightarrow> None)"

text \<open>Decimal rendering of an array index, for the keys that object spread gives to the
  elements of an array or the characters of a string.\<close>

definition digitChar :: "nat \<Rightarrow> char" where
  "digitChar d = char_of (48 + d)"

fun showNat :: "nat \<Rightarrow> string" where
  "showNat n = (if n < 10 then [digitChar n] else showNat (n div 10) @ [digitChar (n mod 10)])"

declare showNat.simps [simp del]

text \<open>\<^verbatim>\<open>{ ...v }\<close>: the own enumerable properties of \<open>v\<close>, none for null, undefined, numbers
  and booleans.\<close>

definition spread :: "json option \<Rightarrow> (string \<times> json) list" where
  "spread v = (case v of
       Some (JObj kvs) \<Rightarrow> kvs
     | Some (JArr xs) \<Rightarrow> zip (map showNat [0 ..< length xs]) xs
     | Some (JStr s) \<Rightarrow> zip (map showNat [0 ..< length s]) (map (\<lambda>c. JStr [c]) s)
     | _ \<Rightarrow> [])"

text \<open>\<^verbatim>\<open>interface RRwebEvent { type; timestamp; data: any }\<close>\<close>

record RRwebEvent =
  ev_type :: int
  ev_timestamp :: int
  ev_data :: "json option"

record Position =
  pos_x :: "int option"
  pos_y :: "int option"
  pos_width :: "int option"
  pos_height :: "int option"

record Element =
  el_tag :: "string option"
  el_id :: "string option"
  el_className :: "string option"
  el_textContent :: "string option"
  el_attributes :: "(string \<times> string) list option"
  el_position :: "Position option"

text \<open>\<^verbatim>\<open>interface ProcessedRRwebEvent\<close>\<close>

record ProcessedRRwebEvent =
  pe_timestamp :: int
  pe_type :: string
  pe_details :: "(string \<times> json) list"
  pe_url :: "string option"
  pe_element :: "Element option"

record Metadata =
  startTime :: int
  endTime :: int
  duration :: int
  md_url :: string
  userAgent :: string

text \<open>\<^verbatim>\<open>interface ProcessedRRwebData\<close>\<close>

record ProcessedRRwebData =
  sessionId :: string
  events :: "ProcessedRRwebEvent list"
  metadata :: Metadata

section \<open>The event processor\<close>

text \<open>The three enum-to-name tables. A key that is not in a table reads \<^verbatim>\<open>undefined\<close>,
  and \<^verbatim>\<open>|| 'Unknown'\<close> follows at each use.\<close>

definition eventTypeMap :: "int \<Rightarrow> string option" where
  "eventTypeMap n =
     (if n = 0 then Some ''DomContentLoaded''
      else if n = 1 then Some ''Load''
      else if n = 2 then Some ''FullSnapshot''
      else if n = 3 then Some ''IncrementalSnapshot''
      else if n = 4 then Some ''Meta''
      else if n = 5 then Some ''Custom''
      else None)"

definition incrementalTypeMap :: "int \<Rightarrow> string option" where
  "incrementalTypeMap n =
     (if n = 0 then Some ''Mutation''
      else if n = 1 then Some ''MouseMove''
      else if n = 2 then Some ''MouseInteraction''
      else if n = 3 then Some ''Scroll''
      else if n = 4 then Some ''ViewportResize''
      else if n = 5 then Some ''Input''
      else if n = 6 then Some ''TouchMove''
      else if n = 7 then Some ''MediaInteraction''
      else if n = 8 then Some ''StyleSheetRule''
      else if n = 9 then Some ''CanvasMutation''
      else if n = 10 then Some ''Font''
      else if n = 11 then Some ''Selection''
      else None)"

definition mouseInteractionMap :: "int \<Rightarrow> string option" where
  "mouseInteractionMap n =
     (if n = 0 then Some ''MouseDown''
      else if n = 1 then Some ''MouseUp''
      else if n = 2 then Some ''Click''
      else if n = 3 then Some ''ContextMenu''
      else if n = 4 then Some ''DblClick''
      else if n = 5 then Some ''Focus''
      else if n = 6 then Some ''Blur''
      else if n = 7 then Some ''TouchStart''
      else if n = 8 then Some ''TouchMove_Departed''
      else if n = 9 then Some ''TouchEnd''
      else None)"

text \<open>\<^verbatim>\<open>table[v] || 'Unknown'\<close> for a key \<open>v\<close> of type \<^verbatim>\<open>any\<close>; the enums are numeric.\<close>

definition nameOr :: "(int \<Rightarrow> string option) \<Rightarrow> json option \<Rightarrow> string" where
  "nameOr table v =
     (case asNum v of
        None \<Rightarrow> ''Unknown''
      | Some n \<Rightarrow> (case table n of None \<Rightarrow> ''Unknown'' | Some s \<Rightarrow> s))"

text \<open>What the source can raise: reading a property of \<^verbatim>\<open>null\<close> or \<^verbatim>\<open>undefined\<close> is a
  \<^verbatim>\<open>TypeError\<close>. The source defines no error class of its own and has no \<^verbatim>\<open>throw\<close>
  statement.\<close>

datatype jsError = TypeError

text \<open>\<^verbatim>\<open>a || b\<close> on possibly undefined values.\<close>

definition orElse :: "json option \<Rightarrow> json option \<Rightarrow> json option" where
  "orElse a b = (if truthyOpt a then a else b)"

definition optEntry :: "string \<Rightarrow> json option \<Rightarrow> (string \<times> json) list" where
  "optEntry k v = (case v of None \<Rightarrow> [] | Some j \<Rightarrow> [(k, j)])"

definition targetElement :: "json \<Rightarrow> json \<Rightarrow> bool \<Rightarrow> Element" where
  "targetElement d t withPos =
     \<lparr> el_tag = asStr (jget t ''tagName''),
       el_id = asStr (jget t ''id''),
       el_className = asStr (jget t ''className''),
       el_textContent = (if withPos then asStr (jget t ''textContent'') else None),
       el_attributes = asAttrs (jget t ''attributes''),
       el_position =
         (if withPos then
            Some \<lparr> pos_x = asNum (jget d ''x''), pos_y = asNum (jget d ''y''),
                   pos_width = asNum (jget t ''width''), pos_height = asNum (jget t ''height'') \<rparr>
          else None) \<rparr>"

definition mkEvent ::
  "RRwebEvent \<Rightarrow> (string \<times> json) list \<Rightarrow> string option \<Rightarrow> Element option \<Rightarrow> ProcessedRRwebEvent" where
  "mkEvent ev details url element =
     \<lparr> pe_timestamp = ev_timestamp ev,
       pe_type = (case eventTypeMap (ev_type ev) of None \<Rightarrow> ''Unknown'' | Some s \<Rightarrow> s),
       pe_details = details, pe_url = url, pe_element = element \<rparr>"

text \<open>\<^verbatim>\<open>processRRwebEvent\<close>. The incremental-snapshot case reads \<^verbatim>\<open>event.data.source\<close>
  and the meta case reads \<^verbatim>\<open>event.data.href\<close> without a guard, so a payload that is
  \<^verbatim>\<open>null\<close> or absent raises there; the other cases only spread the payload.\<close>

definition processIncremental :: "RRwebEvent \<Rightarrow> json \<Rightarrow> ProcessedRRwebEvent" where
  "processIncremental ev d =
     (let source = jget d ''source'';
          base = [(''incrementalType'', JStr (nameOr incrementalTypeMap source))];
          target = jget d ''target''
      in if source = Some (JNum 2) then
           mkEvent ev
             (base @ [(''interactionType'', JStr (nameOr mouseInteractionMap (jget d ''type'')))])
             None
             (case target of
                None \<Rightarrow> None
              | Some t \<Rightarrow> if truthy t then Some (targetElement d t True) else None)
         else if source = Some (JNum 5) then
           mkEvent ev
             (base @ [(''inputType'', JStr ''Input'')]
                   @ optEntry ''value'' (orElse (jget d ''text'') (jget d ''value'')))
             None
             (case target of
                None \<Rightarrow> None
              | Some t \<Rightarrow> if truthy t then Some (targetElement d t False) else None)
         else mkEvent ev base None None)"

definition processRRwebEvent :: "RRwebEvent \<Rightarrow> jsError + ProcessedRRwebEvent" where
  "processRRwebEvent ev =
     (if ev_type ev = 3 then
        (case ev_data ev of
           None \<Rightarrow> Inl TypeError
         | Some JNull \<Rightarrow> Inl TypeError
         | Some d \<Rightarrow> Inr (processIncremental ev d))
      else if ev_type ev = 4 then
        (case ev_data ev of
           None \<Rightarrow> Inl TypeError
         | Some JNull \<Rightarrow> Inl TypeError
         | Some d \<Rightarrow> Inr (mkEvent ev (spread (Some d)) (asStr (jget d ''href'')) None))
      else Inr (mkEvent ev (spread (ev_data ev)) None None))"

section \<open>Loading and normalising the raw sessions\<close>

text \<open>The parsed file, down to the raw events. The source tests each level before it
  iterates (\<^verbatim>\<open>session.records && Array.isArray(session.records)\<close>), so a level that is
  missing or not an array is \<open>None\<close>. Sessions and records are objects, and events are
  objects with a numeric \<^verbatim>\<open>type\<close> and \<^verbatim>\<open>timestamp\<close>, as \<^verbatim>\<open>interface RRwebEvent\<close> declares
  them; the payload of an event is any JSON value, or is missing.\<close>

record RawRecord =
  rec_events :: "RRwebEvent list option"

record RawSession =
  rs_sessionId :: "string option"
  rs_records :: "RawRecord list option"

datatype RawInput =
    FileMissing             \<comment> \<open>\<^verbatim>\<open>fs.existsSync\<close> is false\<close>
  | NotJson                 \<comment> \<open>\<^verbatim>\<open>JSON.parse\<close> raised; \<^verbatim>\<open>safeJsonParse\<close> returns null\<close>
  | FalsyValue              \<comment> \<open>the file holds \<^verbatim>\<open>null\<close>, \<^verbatim>\<open>0\<close>, \<^verbatim>\<open>false\<close> or \<^verbatim>\<open>""\<close>\<close>
  | NoSessionsArray         \<comment> \<open>a value whose \<^verbatim>\<open>sessions\<close> is missing or not an array\<close>
  | SessionsArray "RawSession list"

definition recordEvents :: "RawRecord \<Rightarrow> RRwebEvent list" where
  "recordEvents r = (case rec_events r of None \<Rightarrow> [] | Some es \<Rightarrow> es)"

definition allEventsOf :: "RawSession \<Rightarrow> RRwebEvent list" where
  "allEventsOf s = (case rs_records s of None \<Rightarrow> [] | Some rs \<Rightarrow> concat (map recordEvents rs))"

text \<open>\<^verbatim>\<open>map\<close> with a callback that may raise: the first error ends the iteration.\<close>

fun mapE :: "('a \<Rightarrow> jsError + 'b) \<Rightarrow> 'a list \<Rightarrow> jsError + 'b list" where
  "mapE f [] = Inr []"
| "mapE f (x # xs) =
     (case f x of
        Inl e \<Rightarrow> Inl e
      | Inr y \<Rightarrow> (case mapE f xs of Inl e \<Rightarrow> Inl e | Inr ys \<Rightarrow> Inr (y # ys)))"

text \<open>The \<^verbatim>\<open>url\<close> and \<^verbatim>\<open>userAgent\<close> of the metadata: the last truthy \<^verbatim>\<open>href\<close> and
  \<^verbatim>\<open>userAgent\<close> of the Meta events, read with \<^verbatim>\<open>event.data?.href\<close>.\<close>

definition metaField :: "string \<Rightarrow> string \<Rightarrow> RRwebEvent \<Rightarrow> string" where
  "metaField k cur ev =
     (if ev_type ev = 4 then
        (case ev_data ev of
           None \<Rightarrow> cur
         | Some d \<Rightarrow> (case asStr (jget d k) of None \<Rightarrow> cur | Some s \<Rightarrow> if s \<noteq> [] then s else cur))
      else cur)"

text \<open>One session of \<^verbatim>\<open>loadRRwebData\<close>. \<open>fresh\<close> stands for the identifier that the source
  builds from \<^verbatim>\<open>Date.now()\<close> and \<^verbatim>\<open>Math.random()\<close> when the session has no truthy
  \<^verbatim>\<open>sessionId\<close>. \<^verbatim>\<open>Array.prototype.sort\<close> is stable, as \<open>sort_key\<close> is.\<close>

definition loadSession :: "string \<Rightarrow> RawSession \<Rightarrow> jsError + ProcessedRRwebData" where
  "loadSession fresh s =
     (let sid = (case rs_sessionId s of None \<Rightarrow> fresh | Some i \<Rightarrow> if i \<noteq> [] then i else fresh);
          allEvents = sort_key ev_timestamp (allEventsOf s);
          start = (if allEvents \<noteq> [] then ev_timestamp (hd allEvents) else 0);
          end = (if allEvents \<noteq> [] then ev_timestamp (last allEvents) else 0)
      in case mapE processRRwebEvent allEvents of
           Inl e \<Rightarrow> Inl e
         | Inr processed \<Rightarrow>
             Inr \<lparr> sessionId = sid, events = processed,
                   metadata = \<lparr> startTime = start, endTime = end, duration = end - start,
                                md_url = foldl (metaField ''href'') [] allEvents,
                                userAgent = foldl (metaField ''userAgent'') [] allEvents \<rparr> \<rparr>)"

text \<open>The body of the \<^verbatim>\<open>try\<close> block. \<open>gen k\<close> is the identifier generated for the session
  at index \<open>k\<close>, should it need one.\<close>

fun loadSessions :: "(nat \<Rightarrow> string) \<Rightarrow> nat \<Rightarrow> RawSession list \<Rightarrow> jsError + ProcessedRRwebData list" where
  "loadSessions gen k [] = Inr []"
| "loadSessions gen k (s # ss) =
     (case loadSession (gen k) s of
        Inl e \<Rightarrow> Inl e
      | Inr d \<Rightarrow> (case loadSessions gen (Suc k) ss of Inl e \<Rightarrow> Inl e | Inr ds \<Rightarrow> Inr (d # ds)))"

definition tryLoad :: "(nat \<Rightarrow> string) \<Rightarrow> RawInput \<Rightarrow> jsError + ProcessedRRwebData list" where
  "tryLoad gen input =
     (case input of
        FileMissing \<Rightarrow> Inr []
      | NotJson \<Rightarrow> Inr []
      | FalsyValue \<Rightarrow> Inr []
      | NoSessionsArray \<Rightarrow> Inr []
      | SessionsArray ss \<Rightarrow> loadSessions gen 0 ss)"

text \<open>\<^verbatim>\<open>loadRRwebData\<close>: the \<^verbatim>\<open>catch\<close> clause logs the error and returns the empty
  array.\<close>

definition loadRRwebData :: "(nat \<Rightarrow> string) \<Rightarrow> RawInput \<Rightarrow> jsError + ProcessedRRwebData list" where
  "loadRRwebData gen input =
     (case tryLoad gen input of Inl e \<Rightarrow> Inr [] | Inr ds \<Rightarrow> Inr ds)"

section \<open>Key moments\<close>

text \<open>The objects pushed to \<^verbatim>\<open>keyMoments\<close>: the fields every moment has, and the fields of
  each \<^verbatim>\<open>type\<close>, in the order of the source.\<close>

datatype MomentBody =
    NavigationLoop nat int
      \<comment> \<open>frequency, timeWindow\<close>
  | JSError json
      \<comment> \<open>error\<close>
  | RageClick nat "Element option" "ProcessedRRwebEvent list"
      \<comment> \<open>clickCount, element, context\<close>
  | DeadClick "Element option" "ProcessedRRwebEvent list"
      \<comment> \<open>element, context\<close>
  | FormAbandonment string nat "json option" "ProcessedRRwebEvent list option" "bool option"
      \<comment> \<open>formId, interactionCount, lastValue, context, formCompleted\<close>
  | RapidScrolling nat int "ProcessedRRwebEvent list"
      \<comment> \<open>scrollCount, duration, context\<close>
  | MouseHovering int "int option \<times> int option" "ProcessedRRwebEvent list"
      \<comment> \<open>duration, position, context\<close>
  | Hesitation int ProcessedRRwebEvent ProcessedRRwebEvent "ProcessedRRwebEvent list"
      \<comment> \<open>durationMs, beforeEvent, afterEvent, context\<close>
  | MultipleSubmissions nat "Element option" "ProcessedRRwebEvent list"
      \<comment> \<open>count, element, context\<close>
  | HorizontalScrollMobile "int \<times> int" int
      \<comment> \<open>viewport, scrollX\<close>
  | ShortSession int nat
      \<comment> \<open>durationMs, pageCount\<close>
  | SessionMetrics int nat nat nat nat
      \<comment> \<open>duration, clickCount, inputCount, pageViewCount, errorCount\<close>

record KeyMoment =
  km_timestamp :: int
  km_sessionId :: string
  km_url :: "string option"
  km_body :: MomentBody

fun momentType :: "MomentBody \<Rightarrow> string" where
  "momentType (NavigationLoop f w) = ''NavigationLoop''"
| "momentType (JSError e) = ''JSError''"
| "momentType (RageClick n el c) = ''RageClick''"
| "momentType (DeadClick el c) = ''DeadClick''"
| "momentType (FormAbandonment f n v c fc) = ''FormAbandonment''"
| "momentType (RapidScrolling n d c) = ''RapidScrolling''"
| "momentType (MouseHovering d p c) = ''MouseHovering''"
| "momentType (Hesitation d b a c) = ''Hesitation''"
| "momentType (MultipleSubmissions n el c) = ''MultipleSubmissions''"
| "momentType (HorizontalScrollMobile v x) = ''HorizontalScrollMobile''"
| "momentType (ShortSession d n) = ''ShortSession''"
| "momentType (SessionMetrics d c i p e) = ''SessionMetrics''"

definition moment :: "int \<Rightarrow> string \<Rightarrow> string \<Rightarrow> MomentBody \<Rightarrow> KeyMoment" where
  "moment ts sid url body =
     \<lparr> km_timestamp = ts, km_sessionId = sid, km_url = Some url, km_body = body \<rparr>"

subsection \<open>Helpers of the detectors\<close>

definition detail :: "ProcessedRRwebEvent \<Rightarrow> string \<Rightarrow> json option" where
  "detail e k = map_of (pe_details e) k"

text \<open>\<^verbatim>\<open>e.type === 'IncrementalSnapshot' && e.details.incrementalType === k\<close>\<close>

definition isIncremental :: "ProcessedRRwebEvent \<Rightarrow> string \<Rightarrow> bool" where
  "isIncremental e k =
     (pe_type e = ''IncrementalSnapshot'' \<and> detail e ''incrementalType'' = Some (JStr k))"

definition interactionIs :: "ProcessedRRwebEvent \<Rightarrow> string \<Rightarrow> bool" where
  "interactionIs e k = (detail e ''interactionType'' = Some (JStr k))"

text \<open>\<^verbatim>\<open>haystack.includes(needle)\<close>\<close>

fun strIncludes :: "string \<Rightarrow> string \<Rightarrow> bool" where
  "strIncludes [] needle = (needle = [])"
| "strIncludes (c # cs) needle = (take (length needle) (c # cs) = needle \<or> strIncludes cs needle)"

definition attr :: "Element \<Rightarrow> string \<Rightarrow> string option" where
  "attr el k = (case el_attributes el of None \<Rightarrow> None | Some kvs \<Rightarrow> map_of kvs k)"

text \<open>\<^verbatim>\<open>el.className && el.className.includes(s)\<close>\<close>

definition classIncludes :: "Element \<Rightarrow> string \<Rightarrow> bool" where
  "classIncludes el s = (case el_className el of None \<Rightarrow> False | Some c \<Rightarrow> c \<noteq> [] \<and> strIncludes c s)"

text \<open>\<^verbatim>\<open>el.position?.x || 0\<close> and \<^verbatim>\<open>el.position?.y || 0\<close>\<close>

definition posX :: "Element \<Rightarrow> int" where
  "posX el = (case el_position el of None \<Rightarrow> 0 | Some p \<Rightarrow> (case pos_x p of None \<Rightarrow> 0 | Some v \<Rightarrow> v))"

definition posY :: "Element \<Rightarrow> int" where
  "posY el = (case el_position el of None \<Rightarrow> 0 | Some p \<Rightarrow> (case pos_y p of None \<Rightarrow> 0 | Some v \<Rightarrow> v))"

text \<open>\<^verbatim>\<open>xs.slice(-k)\<close> and \<^verbatim>\<open>xs.slice(Math.max(0, i - k), i)\<close>\<close>

definition lastN :: "nat \<Rightarrow> 'a list \<Rightarrow> 'a list" where
  "lastN k xs = drop (length xs - k) xs"

definition lookback :: "nat \<Rightarrow> nat \<Rightarrow> 'a list \<Rightarrow> 'a list" where
  "lookback k i xs = take (i - (i - k)) (drop (i - k) xs)"

text \<open>\<^verbatim>\<open>getContextAroundEvent\<close>: the events from \<^verbatim>\<open>max(0, i - w)\<close> to
  \<^verbatim>\<open>min(length - 1, i + w)\<close>, each without its \<^verbatim>\<open>url\<close> and with \<^verbatim>\<open>details.positions\<close> cut to
  three entries.\<close>

definition cutPositions :: "json \<Rightarrow> json" where
  "cutPositions v =
     (case v of
        JArr xs \<Rightarrow> if length xs > 3 then JArr (take 3 xs) else v
      | JStr s \<Rightarrow> if length s > 3 then JStr (take 3 s) else v
      | _ \<Rightarrow> v)"

definition simplifyEvent :: "ProcessedRRwebEvent \<Rightarrow> ProcessedRRwebEvent" where
  "simplifyEvent e =
     \<lparr> pe_timestamp = pe_timestamp e, pe_type = pe_type e,
       pe_details = map (\<lambda>(k, v). if k = ''positions'' then (k, cutPositions v) else (k, v)) (pe_details e),
       pe_url = None, pe_element = pe_element e \<rparr>"

definition getContextAroundEvent :: "ProcessedRRwebEvent list \<Rightarrow> nat \<Rightarrow> nat \<Rightarrow> ProcessedRRwebEvent list" where
  "getContextAroundEvent evs currentIndex windowSize =
     (if evs = [] \<or> currentIndex \<ge> length evs then []
      else let startIdx = currentIndex - windowSize;
               endIdx = min (length evs - 1) (currentIndex + windowSize)
           in map simplifyEvent (take (endIdx + 1 - startIdx) (drop startIdx evs)))"

subsection \<open>A loop that carries state and pushes moments\<close>

fun runPass :: "('s \<Rightarrow> 'a \<Rightarrow> 's \<times> 'm list) \<Rightarrow> 's \<Rightarrow> 'a list \<Rightarrow> 's \<times> 'm list" where
  "runPass f s [] = (s, [])"
| "runPass f s (x # xs) =
     (case f s x of (s', ms) \<Rightarrow> (case runPass f s' xs of (s'', ms') \<Rightarrow> (s'', ms @ ms')))"

subsection \<open>First pass: viewport, current URL, navigation loops, errors\<close>

record FirstPass =
  viewportSize :: "int \<times> int"
  currentUrl :: string
  navigationEvents :: "ProcessedRRwebEvent list"
  errorEvents :: "ProcessedRRwebEvent list"

definition trackViewport :: "FirstPass \<Rightarrow> ProcessedRRwebEvent \<Rightarrow> FirstPass" where
  "trackViewport st e =
     (if pe_type e = ''Meta'' then
        (case (asNum (detail e ''width''), asNum (detail e ''height'')) of
           (Some w, Some h) \<Rightarrow> if w \<noteq> 0 \<and> h \<noteq> 0 then st\<lparr>viewportSize := (w, h)\<rparr> else st
         | _ \<Rightarrow> st)
      else st)"

definition detectNavigationLoop ::
  "string \<Rightarrow> FirstPass \<Rightarrow> ProcessedRRwebEvent \<Rightarrow> FirstPass \<times> KeyMoment list" where
  "detectNavigationLoop sid st e =
     (case (if pe_type e = ''Navigate'' then asStr (detail e ''href'') else None) of
        None \<Rightarrow> (st, [])
      | Some href \<Rightarrow>
          if href = [] then (st, [])
          else
            let navs = navigationEvents st @ [e];
                recentNavigations =
                  filter (\<lambda>n. pe_url n = Some href)
                    (filter (\<lambda>n. pe_timestamp n > pe_timestamp e - 120000) navs)
            in (st\<lparr>currentUrl := href, navigationEvents := navs\<rparr>,
                if length recentNavigations \<ge> 3
                then [moment (pe_timestamp e) sid href
                        (NavigationLoop (length recentNavigations) 120000)]
                else []))"

definition detectJSError ::
  "string \<Rightarrow> FirstPass \<Rightarrow> ProcessedRRwebEvent \<Rightarrow> FirstPass \<times> KeyMoment list" where
  "detectJSError sid st e =
     (if isIncremental e ''Canvas'' then
        (case detail e ''error'' of
           None \<Rightarrow> (st, [])
         | Some err \<Rightarrow>
             if truthy err
             then (st\<lparr>errorEvents := errorEvents st @ [e]\<rparr>,
                   [moment (pe_timestamp e) sid (currentUrl st) (JSError err)])
             else (st, []))
      else (st, []))"

definition firstPassStep ::
  "string \<Rightarrow> FirstPass \<Rightarrow> ProcessedRRwebEvent \<Rightarrow> FirstPass \<times> KeyMoment list" where
  "firstPassStep sid st e =
     (case detectNavigationLoop sid (trackViewport st e) e of
        (st1, ms1) \<Rightarrow> (case detectJSError sid st1 e of (st2, ms2) \<Rightarrow> (st2, ms1 @ ms2)))"

definition firstPassInit :: "ProcessedRRwebData \<Rightarrow> FirstPass" where
  "firstPassInit session =
     \<lparr> viewportSize = (0, 0), currentUrl = md_url (metadata session),
       navigationEvents = [], errorEvents = [] \<rparr>"

definition firstPass :: "ProcessedRRwebData \<Rightarrow> FirstPass \<times> KeyMoment list" where
  "firstPass session =
     runPass (firstPassStep (sessionId session)) (firstPassInit session) (events session)"

subsection \<open>Second pass: the tracking variables and the detectors\<close>

record Tracking =
  clickEvents :: "ProcessedRRwebEvent list"
  lastClickTime :: int
  formInteractions :: "ProcessedRRwebEvent list"
  currentFormId :: "string option"
  lastInputTime :: int
  lastInputValue :: "json option"
  scrollEvents :: "ProcessedRRwebEvent list"
  lastScrollTime :: int
  mouseMovements :: "ProcessedRRwebEvent list"
  lastMouseMoveTime :: int

definition trackingInit :: Tracking where
  "trackingInit =
     \<lparr> clickEvents = [], lastClickTime = 0, formInteractions = [], currentFormId = None,
       lastInputTime = 0, lastInputValue = None, scrollEvents = [], lastScrollTime = 0,
       mouseMovements = [], lastMouseMoveTime = 0 \<rparr>"

text \<open>What the second pass reads and never writes: the events, the session identifier,
  and the URL and viewport that the first pass ended with.\<close>

record Scan =
  sc_events :: "ProcessedRRwebEvent list"
  sc_sessionId :: string
  sc_url :: string
  sc_viewport :: "int \<times> int"

definition emit :: "Scan \<Rightarrow> nat \<Rightarrow> MomentBody \<Rightarrow> KeyMoment" where
  "emit sc i body = moment (pe_timestamp (sc_events sc ! i)) (sc_sessionId sc) (sc_url sc) body"

definition isClickOrMouseDown :: "ProcessedRRwebEvent \<Rightarrow> bool" where
  "isClickOrMouseDown e =
     (isIncremental e ''MouseInteraction'' \<and> (interactionIs e ''Click'' \<or> interactionIs e ''MouseDown''))"

text \<open>The filter of \<^verbatim>\<open>sameAreaClicks\<close>: both events have an element and the two positions
  differ by less than 20 on each axis.\<close>

definition sameArea :: "ProcessedRRwebEvent \<Rightarrow> ProcessedRRwebEvent \<Rightarrow> bool" where
  "sameArea event click =
     (case (pe_element click, pe_element event) of
        (Some c, Some t) \<Rightarrow> \<bar>posX c - posX t\<bar> < 20 \<and> \<bar>posY c - posY t\<bar> < 20
      | _ \<Rightarrow> False)"

definition detectRageClick :: "Scan \<Rightarrow> nat \<Rightarrow> Tracking \<Rightarrow> Tracking \<times> KeyMoment list" where
  "detectRageClick sc i t =
     (let event = sc_events sc ! i in
      if \<not> isClickOrMouseDown event then (t, [])
      else
        let pushed = clickEvents t @ [event];
            sameAreaClicks = filter (sameArea event) pushed;
            t' = t\<lparr>lastClickTime := pe_timestamp event\<rparr>
        in if pe_timestamp event - lastClickTime t < 1000 then
             (if length pushed \<ge> 3 then
                (if length sameAreaClicks \<ge> 3
                 then (t'\<lparr>clickEvents := []\<rparr>,
                       [emit sc i (RageClick (length sameAreaClicks) (pe_element event)
                          (getContextAroundEvent (sc_events sc) i 5))])
                 else (t'\<lparr>clickEvents := pushed\<rparr>, []))
              else (t'\<lparr>clickEvents := pushed\<rparr>, []))
           else (t'\<lparr>clickEvents := [event]\<rparr>, []))"

definition interactiveElements :: "string list" where
  "interactiveElements = [''BUTTON'', ''A'', ''INPUT'', ''SELECT'', ''TEXTAREA'', ''LABEL'']"

definition isDeadTarget :: "Element \<Rightarrow> bool" where
  "isDeadTarget el =
     ((case el_tag el of None \<Rightarrow> True | Some tg \<Rightarrow> tg \<notin> set interactiveElements)
      \<and> \<not> classIncludes el ''btn''
      \<and> \<not> classIncludes el ''button''
      \<and> attr el ''role'' \<noteq> Some ''button''
      \<and> (case attr el ''onclick'' of None \<Rightarrow> True | Some h \<Rightarrow> h = []))"

definition detectDeadClick :: "Scan \<Rightarrow> nat \<Rightarrow> KeyMoment list" where
  "detectDeadClick sc i =
     (let event = sc_events sc ! i in
      if \<not> isClickOrMouseDown event then []
      else (case pe_element event of
              None \<Rightarrow> []
            | Some el \<Rightarrow>
                if isDeadTarget el
                then [emit sc i (DeadClick (Some el) (getContextAroundEvent (sc_events sc) i 3))]
                else []))"

definition trackInput :: "Scan \<Rightarrow> nat \<Rightarrow> Tracking \<Rightarrow> Tracking" where
  "trackInput sc i t =
     (let event = sc_events sc ! i in
      if \<not> isIncremental event ''Input'' then t
      else
        t\<lparr> formInteractions := formInteractions t @ [event],
           lastInputTime := pe_timestamp event,
           lastInputValue := (case detail event ''value'' of Some JNull \<Rightarrow> None | v \<Rightarrow> v),
           currentFormId :=
             (case pe_element event of
                None \<Rightarrow> currentFormId t
              | Some el \<Rightarrow>
                  (case attr el ''form'' of
                     None \<Rightarrow> currentFormId t
                   | Some f \<Rightarrow> if f \<noteq> [] then Some f else currentFormId t)) \<rparr>)"

definition isSubmitButton :: "Element \<Rightarrow> bool" where
  "isSubmitButton el = (el_tag el = Some ''BUTTON'' \<and> attr el ''type'' = Some ''submit'')"

text \<open>The predicate of \<^verbatim>\<open>submissionFound\<close>: a click on a submit button or on an element
  whose \<^verbatim>\<open>form\<close> attribute is the current form.\<close>

definition isSubmission :: "string \<Rightarrow> ProcessedRRwebEvent \<Rightarrow> bool" where
  "isSubmission formId e =
     (isIncremental e ''MouseInteraction'' \<and> interactionIs e ''Click'' \<and>
      (case pe_element e of
         None \<Rightarrow> False
       | Some el \<Rightarrow> isSubmitButton el \<or> attr el ''form'' = Some formId))"

definition detectFormAbandonment :: "Scan \<Rightarrow> nat \<Rightarrow> Tracking \<Rightarrow> Tracking \<times> KeyMoment list" where
  "detectFormAbandonment sc i t =
     (let event = sc_events sc ! i in
      if pe_type event = ''Navigate'' then
        (case currentFormId t of
           None \<Rightarrow> (t, [])
         | Some formId \<Rightarrow>
             if formId \<noteq> [] \<and> formInteractions t \<noteq> [] then
               let submissionFound = list_ex (isSubmission formId) (lookback 10 i (sc_events sc))
               in (t\<lparr>formInteractions := [], currentFormId := None\<rparr>,
                   if \<not> submissionFound \<and> length (formInteractions t) \<ge> 2
                   then [emit sc i (FormAbandonment formId (length (formInteractions t))
                           (lastInputValue t)
                           (Some (getContextAroundEvent (sc_events sc) i 10)) None)]
                   else [])
             else (t, []))
      else (t, []))"

definition detectRapidScrolling :: "Scan \<Rightarrow> nat \<Rightarrow> Tracking \<Rightarrow> Tracking \<times> KeyMoment list" where
  "detectRapidScrolling sc i t =
     (let event = sc_events sc ! i in
      if \<not> isIncremental event ''Scroll'' then (t, [])
      else
        let pushed = scrollEvents t @ [event];
            recentScrolls = filter (\<lambda>e. pe_timestamp e > pe_timestamp event - 5000) pushed;
            t' = t\<lparr>lastScrollTime := pe_timestamp event\<rparr>
        in if length recentScrolls \<ge> 8
           then (t'\<lparr>scrollEvents := lastN 2 pushed\<rparr>,
                 [emit sc i (RapidScrolling (length recentScrolls)
                    (pe_timestamp event - pe_timestamp (hd recentScrolls))
                    (getContextAroundEvent (sc_events sc) i 5))])
           else (t'\<lparr>scrollEvents := pushed\<rparr>, []))"

text \<open>The position that the hover detector reads from a mouse move: the first entry of
  \<^verbatim>\<open>details.positions\<close> when that has entries, \<^verbatim>\<open>{ x: 0, y: 0 }\<close> otherwise. The
  \<^verbatim>\<open>positions\<close> of rrweb, when present, is an array of objects.\<close>

definition firstPosition :: "ProcessedRRwebEvent \<Rightarrow> int option \<times> int option" where
  "firstPosition m =
     (case detail m ''positions'' of
        Some (JArr (p # ps)) \<Rightarrow> (asNum (jget p ''x''), asNum (jget p ''y''))
      | Some (JStr (c # cs)) \<Rightarrow> (None, None)
      | _ \<Rightarrow> (Some 0, Some 0))"

text \<open>\<^verbatim>\<open>pos.x !== 0 || pos.y !== 0\<close>\<close>

definition positionValid :: "int option \<times> int option \<Rightarrow> bool" where
  "positionValid pos = (fst pos \<noteq> Some 0 \<or> snd pos \<noteq> Some 0)"

text \<open>\<^verbatim>\<open>Math.abs(pos.x - prevPos.x) < 30 && Math.abs(pos.y - prevPos.y) < 30\<close>; a coordinate
  that is undefined makes the difference \<^verbatim>\<open>NaN\<close> and the comparison false.\<close>

definition withinRange :: "int option \<times> int option \<Rightarrow> int option \<times> int option \<Rightarrow> bool" where
  "withinRange pos prevPos =
     (case (fst pos, fst prevPos, snd pos, snd prevPos) of
        (Some x, Some px, Some y, Some py) \<Rightarrow> \<bar>x - px\<bar> < 30 \<and> \<bar>y - py\<bar> < 30
      | _ \<Rightarrow> False)"

fun allPositionsWithinRange :: "(int option \<times> int option) list \<Rightarrow> bool" where
  "allPositionsWithinRange (p # q # ps) = (withinRange q p \<and> allPositionsWithinRange (q # ps))"
| "allPositionsWithinRange ps = True"

definition detectMouseHovering :: "Scan \<Rightarrow> nat \<Rightarrow> Tracking \<Rightarrow> Tracking \<times> KeyMoment list" where
  "detectMouseHovering sc i t =
     (let event = sc_events sc ! i in
      if \<not> isIncremental event ''MouseMove'' then (t, [])
      else
        let pushed = mouseMovements t @ [event];
            lastMoves = lastN 3 pushed;
            positions = map firstPosition lastMoves
        in (t\<lparr>mouseMovements := pushed, lastMouseMoveTime := pe_timestamp event\<rparr>,
            if length pushed \<ge> 3 \<and> pe_timestamp event - lastMouseMoveTime t > 3000
               \<and> list_all positionValid positions \<and> allPositionsWithinRange positions
            then [emit sc i (MouseHovering (pe_timestamp event - pe_timestamp (hd lastMoves))
                    (last positions) (getContextAroundEvent (sc_events sc) i 3))]
            else []))"

definition detectHesitation :: "Scan \<Rightarrow> nat \<Rightarrow> KeyMoment list" where
  "detectHesitation sc i =
     (if i > 0 then
        let event = sc_events sc ! i;
            prevEvent = sc_events sc ! (i - 1);
            timeDiff = pe_timestamp event - pe_timestamp prevEvent
        in if timeDiff > 10000 \<and> timeDiff < 300000
              \<and> pe_type event = ''IncrementalSnapshot''
              \<and> pe_type prevEvent = ''IncrementalSnapshot''
              \<and> (detail event ''incrementalType'' = Some (JStr ''MouseInteraction'')
                 \<or> detail event ''incrementalType'' = Some (JStr ''Input''))
           then [emit sc i (Hesitation timeDiff prevEvent event
                   (getContextAroundEvent (sc_events sc) i 5))]
           else []
      else [])"

definition isSubmitLike :: "Element \<Rightarrow> bool" where
  "isSubmitLike el = (isSubmitButton el \<or> classIncludes el ''submit'' \<or> classIncludes el ''send'')"

definition detectMultipleSubmissions :: "Scan \<Rightarrow> nat \<Rightarrow> KeyMoment list" where
  "detectMultipleSubmissions sc i =
     (let event = sc_events sc ! i in
      if isIncremental event ''MouseInteraction'' \<and> interactionIs event ''Click'' then
        (case pe_element event of
           None \<Rightarrow> []
         | Some el \<Rightarrow>
             if isSubmitLike el then
               let recentSubmissions =
                     filter (\<lambda>e. isIncremental e ''MouseInteraction''
                                 \<and> pe_timestamp e > pe_timestamp event - 10000
                                 \<and> (case pe_element e of None \<Rightarrow> False | Some l \<Rightarrow> isSubmitLike l))
                       (lookback 20 i (sc_events sc))
               in if length recentSubmissions \<ge> 2
                  then [emit sc i (MultipleSubmissions (length recentSubmissions + 1) (Some el)
                          (getContextAroundEvent (sc_events sc) i 10))]
                  else []
             else [])
      else [])"

definition detectHorizontalScroll :: "Scan \<Rightarrow> nat \<Rightarrow> KeyMoment list" where
  "detectHorizontalScroll sc i =
     (let event = sc_events sc ! i in
      if fst (sc_viewport sc) < 768 \<and> isIncremental event ''Scroll'' then
        (case asNum (detail event ''x'') of
           None \<Rightarrow> []
         | Some x \<Rightarrow> if x > 0 then [emit sc i (HorizontalScrollMobile (sc_viewport sc) x)] else [])
      else [])"

text \<open>One iteration of the second loop: the detectors in the order of the source.\<close>

definition secondPassStep :: "Scan \<Rightarrow> Tracking \<Rightarrow> nat \<Rightarrow> Tracking \<times> KeyMoment list" where
  "secondPassStep sc t i =
     (case detectRageClick sc i t of (t1, rage) \<Rightarrow>
      case detectFormAbandonment sc i (trackInput sc i t1) of (t2, form) \<Rightarrow>
      case detectRapidScrolling sc i t2 of (t3, scroll) \<Rightarrow>
      case detectMouseHovering sc i t3 of (t4, hover) \<Rightarrow>
        (t4, rage @ detectDeadClick sc i @ form @ scroll @ hover @ detectHesitation sc i
               @ detectMultipleSubmissions sc i @ detectHorizontalScroll sc i))"

definition secondPass :: "Scan \<Rightarrow> Tracking \<times> KeyMoment list" where
  "secondPass sc = runPass (secondPassStep sc) trackingInit [0 ..< length (sc_events sc)]"

subsection \<open>Post-session analysis and \<^verbatim>\<open>extractKeyMoments\<close>\<close>

definition endOfSessionAbandonment :: "Scan \<Rightarrow> Tracking \<Rightarrow> KeyMoment list" where
  "endOfSessionAbandonment sc t =
     (case currentFormId t of
        None \<Rightarrow> []
      | Some formId \<Rightarrow>
          if formId \<noteq> [] \<and> formInteractions t \<noteq> []
          then [moment (pe_timestamp (last (sc_events sc))) (sc_sessionId sc) (sc_url sc)
                  (FormAbandonment formId (length (formInteractions t)) (lastInputValue t)
                     None (Some False))]
          else [])"

definition shortSession :: "ProcessedRRwebData \<Rightarrow> FirstPass \<Rightarrow> KeyMoment list" where
  "shortSession session fp =
     (if duration (metadata session) < 10000 \<and> length (navigationEvents fp) \<le> 2
      then [moment (startTime (metadata session)) (sessionId session) (currentUrl fp)
              (ShortSession (duration (metadata session)) (length (navigationEvents fp)))]
      else [])"

definition isClick :: "ProcessedRRwebEvent \<Rightarrow> bool" where
  "isClick e = (isIncremental e ''MouseInteraction'' \<and> interactionIs e ''Click'')"

definition sessionMetrics :: "ProcessedRRwebData \<Rightarrow> FirstPass \<Rightarrow> KeyMoment" where
  "sessionMetrics session fp =
     \<lparr> km_timestamp = startTime (metadata session), km_sessionId = sessionId session,
       km_url = None,
       km_body = SessionMetrics (duration (metadata session))
                   (length (filter isClick (events session)))
                   (length (filter (\<lambda>e. isIncremental e ''Input'') (events session)))
                   (length (filter (\<lambda>e. pe_type e = ''Navigate'') (events session)))
                   (length (errorEvents fp)) \<rparr>"

definition scanOf :: "ProcessedRRwebData \<Rightarrow> FirstPass \<Rightarrow> Scan" where
  "scanOf session fp =
     \<lparr> sc_events = events session, sc_sessionId = sessionId session,
       sc_url = currentUrl fp, sc_viewport = viewportSize fp \<rparr>"

text \<open>The body of the loop over the sessions. A session without events is skipped
  (\<^verbatim>\<open>if (!events || events.length === 0) continue;\<close>).\<close>

definition extractSession :: "ProcessedRRwebData \<Rightarrow> KeyMoment list" where
  "extractSession session =
     (if events session = [] then []
      else
        case firstPass session of (fp, ms1) \<Rightarrow>
        case secondPass (scanOf session fp) of (t, ms2) \<Rightarrow>
          ms1 @ ms2 @ endOfSessionAbandonment (scanOf session fp) t
              @ shortSession session fp @ [sessionMetrics session fp])"

definition extractKeyMoments :: "ProcessedRRwebData list \<Rightarrow> KeyMoment list" where
  "extractKeyMoments rrwebData = concat (map extractSession rrwebData)"

section \<open>Synchronising with the PostHog events\<close>

subsection \<open>The arithmetic of the relevance score\<close>

text \<open>
  \<^verbatim>\<open>1 - (timeDiffMs / NEARBY_EVENT_WINDOW_MS)\<close> is computed in IEEE 754 binary64 and then
  printed with \<^verbatim>\<open>toFixed(2)\<close>. A double is the rational number it denotes. \<open>toDouble\<close>
  rounds a rational to the nearest double, ties to the even significand of 53 bits, for
  magnitudes in the normal range of binary64 (no overflow, no subnormal numbers: the
  quotients and differences of the score lie between \<open>2\<^sup>-\<^sup>1\<^sup>5\<close> and 1, or are 0).
\<close>

fun bitlen :: "nat \<Rightarrow> nat" where
  "bitlen n = (if n = 0 then 0 else Suc (bitlen (n div 2)))"

declare bitlen.simps [simp del]

text \<open>\<open>\<lfloor>log\<^sub>2 q\<rfloor>\<close> for a positive rational.\<close>

definition ilog2 :: "rat \<Rightarrow> int" where
  "ilog2 q = (if 1 \<le> q then int (bitlen (nat \<lfloor>q\<rfloor>)) - 1
              else - int (bitlen (nat \<lceil>1 / q\<rceil> - 1)))"

definition roundHalfEven :: "rat \<Rightarrow> int" where
  "roundHalfEven q =
     (let f = \<lfloor>q\<rfloor>; r = q - of_int f
      in if r < 1 / 2 then f else if 1 / 2 < r then f + 1 else if even f then f else f + 1)"

definition toDouble :: "rat \<Rightarrow> rat" where
  "toDouble q =
     (if q = 0 then 0
      else let e = ilog2 \<bar>q\<bar> - 52
           in sgn q * of_int (roundHalfEven (\<bar>q\<bar> / 2 powi e)) * 2 powi e)"

text \<open>\<^verbatim>\<open>x.toFixed(2)\<close>, as the number of hundredths that it prints: the integer \<open>n\<close> for
  which \<open>n / 100\<close> is nearest to the exact value of \<open>x\<close>, the larger one of two (ECMA-262,
  Number.prototype.toFixed); a negative \<open>x\<close> is printed as the negation of \<open>-x\<close>.\<close>

definition toFixed2 :: "rat \<Rightarrow> int" where
  "toFixed2 x = (if x < 0 then - \<lfloor>- x * 100 + 1 / 2\<rfloor> else \<lfloor>x * 100 + 1 / 2\<rfloor>)"

text \<open>\<^verbatim>\<open>parseFloat\<close> of the string that \<^verbatim>\<open>toFixed(2)\<close> printed.\<close>

definition parseFixed2 :: "int \<Rightarrow> rat" where
  "parseFixed2 n = toDouble (of_int n / 100)"

definition NEARBY_EVENT_WINDOW_MS :: int where
  "NEARBY_EVENT_WINDOW_MS = 30000"

text \<open>\<^verbatim>\<open>const relevanceScore = 1 - (timeDiffMs / NEARBY_EVENT_WINDOW_MS)\<close>\<close>

definition rawScore :: "int \<Rightarrow> rat" where
  "rawScore timeDiffMs =
     toDouble (1 - toDouble (of_int timeDiffMs / of_int NEARBY_EVENT_WINDOW_MS))"

text \<open>\<^verbatim>\<open>parseFloat(relevanceScore.toFixed(2))\<close>\<close>

definition scoreOf :: "int \<Rightarrow> rat" where
  "scoreOf timeDiffMs = parseFixed2 (toFixed2 (rawScore timeDiffMs))"

subsection \<open>\<^verbatim>\<open>syncWithPostHogEvents\<close>\<close>

text \<open>\<^verbatim>\<open>interface PostHogEvent\<close> of \<^verbatim>\<open>src/posthog.ts\<close>\<close>

record PostHogEvent =
  ph_id :: string
  ph_event :: string
  ph_distinct_id :: string
  ph_properties :: "(string \<times> json) list"
  ph_timestamp :: string
  ph_elements_chain :: "string option"

text \<open>\<^verbatim>\<open>{ ...event, normalizedTimestamp }\<close>; \<open>None\<close> is the \<^verbatim>\<open>NaN\<close> of an invalid date.\<close>

record NormalizedEvent = PostHogEvent +
  normalizedTimestamp :: "int option"

text \<open>\<^verbatim>\<open>{ ...event, relevanceScore }\<close>\<close>

record RelevantEvent = NormalizedEvent +
  relevanceScore :: rat

text \<open>\<^verbatim>\<open>{ ...moment, nearbyPosthogEvents }\<close>\<close>

record SyncedMoment = KeyMoment +
  nearbyPosthogEvents :: "RelevantEvent list"

text \<open>\<open>getTime s\<close> stands for \<^verbatim>\<open>new Date(s).getTime()\<close>, the parser of the platform.\<close>

definition normalizeEvent :: "(string \<Rightarrow> int option) \<Rightarrow> PostHogEvent \<Rightarrow> NormalizedEvent" where
  "normalizeEvent getTime e = PostHogEvent.extend e (NormalizedEvent.fields (getTime (ph_timestamp e)))"

text \<open>\<^verbatim>\<open>Math.abs(event.normalizedTimestamp - moment.timestamp)\<close>, \<open>None\<close> for \<^verbatim>\<open>NaN\<close>.\<close>

definition timeDiffMs :: "int \<Rightarrow> NormalizedEvent \<Rightarrow> int option" where
  "timeDiffMs ts e = (case normalizedTimestamp e of None \<Rightarrow> None | Some n \<Rightarrow> Some \<bar>n - ts\<bar>)"

definition isNearby :: "int \<Rightarrow> NormalizedEvent \<Rightarrow> bool" where
  "isNearby ts e = (case timeDiffMs ts e of None \<Rightarrow> False | Some d \<Rightarrow> d < NEARBY_EVENT_WINDOW_MS)"

text \<open>The key of the sort. The events that reach the sort passed the filter, so their
  distance is a number.\<close>

definition distanceKey :: "int \<Rightarrow> 'a NormalizedEvent_scheme \<Rightarrow> int" where
  "distanceKey ts e = (case normalizedTimestamp e of None \<Rightarrow> 0 | Some n \<Rightarrow> \<bar>n - ts\<bar>)"

definition withScore :: "int \<Rightarrow> NormalizedEvent \<Rightarrow> RelevantEvent" where
  "withScore ts e = NormalizedEvent.extend e (RelevantEvent.fields (scoreOf (distanceKey ts e)))"

text \<open>The callback of \<^verbatim>\<open>keyMoments.map\<close>: filter, stable sort by distance, score.\<close>

definition relevantEvents :: "int \<Rightarrow> NormalizedEvent list \<Rightarrow> RelevantEvent list" where
  "relevantEvents ts normalized =
     map (withScore ts) (sort_key (distanceKey ts) (filter (isNearby ts) normalized))"

definition syncMoment :: "NormalizedEvent list \<Rightarrow> KeyMoment \<Rightarrow> SyncedMoment" where
  "syncMoment normalized m =
     KeyMoment.extend m (SyncedMoment.fields (relevantEvents (km_timestamp m) normalized))"

definition syncWithPostHogEvents ::
  "(string \<Rightarrow> int option) \<Rightarrow> ProcessedRRwebData list \<Rightarrow> PostHogEvent list
     \<Rightarrow> NormalizedEvent list \<times> SyncedMoment list" where
  "syncWithPostHogEvents getTime rrwebData posthogEvents =
     (let keyMoments = extractKeyMoments rrwebData;
          normalizedPosthogEvents = map (normalizeEvent getTime) posthogEvents
      in (normalizedPosthogEvents, map (syncMoment normalizedPosthogEvents) keyMoments))"

text \<open>The pipeline of \<^verbatim>\<open>src/index.ts\<close>: load, then synchronise.\<close>

definition pipeline ::
  "(nat \<Rightarrow> string) \<Rightarrow> (string \<Rightarrow> int option) \<Rightarrow> RawInput \<Rightarrow> PostHogEvent list \<Rightarrow> SyncedMoment list" where
  "pipeline gen getTime input posthogEvents =
     (case loadRRwebData gen input of
        Inl e \<Rightarrow> []
      | Inr rrwebData \<Rightarrow> snd (syncWithPostHogEvents getTime rrwebData posthogEvents))"

section \<open>Vocabulary of the verified properties\<close>

text \<open>The \<^verbatim>\<open>type\<close> field of a moment, and the moments of one type in a list.\<close>

definition hasType :: "string \<Rightarrow> KeyMoment \<Rightarrow> bool" where
  "hasType ty m = (momentType (km_body m) = ty)"


text \<open>The types of the moments that the second loop pushes.\<close>

definition secondPassTypes :: "string list" where
  "secondPassTypes = [''RageClick'', ''DeadClick'', ''FormAbandonment'', ''RapidScrolling'',
     ''MouseHovering'', ''Hesitation'', ''MultipleSubmissions'', ''HorizontalScrollMobile'']"



subsection \<open>Sample sessions\<close>






definition sessionOf :: "string \<Rightarrow> ProcessedRRwebEvent list \<Rightarrow> ProcessedRRwebData" where
  "sessionOf sid evs =
     \<lparr> sessionId = sid, events = evs,
       metadata = \<lparr> startTime = (if evs = [] then 0 else pe_timestamp (hd evs)),
                    endTime = (if evs = [] then 0 else pe_timestamp (last evs)),
                    duration = (if evs = [] then 0 else pe_timestamp (last evs) - pe_timestamp (hd evs)),
                    md_url = [], userAgent = [] \<rparr> \<rparr>"


subsection \<open>Hesitation\<close>





subsection \<open>Errors\<close>




subsection \<open>Loading\<close>

text \<open>Top-level input that is not a list of sessions: the file is missing, is not JSON,
  holds a falsy value, or holds a value without a \<^verbatim>\<open>sessions\<close> array.\<close>

definition malformedTopLevel :: "RawInput \<Rightarrow> bool" where
  "malformedTopLevel input = (case input of SessionsArray ss \<Rightarrow> False | _ \<Rightarrow> True)"

text \<open>Two generators of fallback identifiers, for two runs at different times.\<close>

definition firstRunIds :: "nat \<Rightarrow> string" where
  "firstRunIds k = ''session_1700000000000_k3j9x2a''"

definition secondRunIds :: "nat \<Rightarrow> string" where
  "secondRunIds k = ''session_1700000000500_p0q8w1z''"

text \<open>A date parser that parses nothing, and one that reads one ISO date.\<close>

definition noDates :: "string \<Rightarrow> int option" where
  "noDates s = None"

definition oneDate :: "string \<Rightarrow> int option" where
  "oneDate s = (if s = ''1970-01-01T00:00:01.000Z'' then Some 1000 else None)"

text \<open>A page view of the external log, one second after the epoch.\<close>

definition firstPageview :: PostHogEvent where
  "firstPageview =
     \<lparr> ph_id = ''e1'', ph_event = ''$pageview'', ph_distinct_id = ''user'', ph_properties = [],
       ph_timestamp = ''1970-01-01T00:00:01.000Z'', ph_elements_chain = None \<rparr>"

text \<open>A raw scroll event, and a raw incremental snapshot without a payload.\<close>

definition rawScroll :: "int \<Rightarrow> RRwebEvent" where
  "rawScroll ts = \<lparr> ev_type = 3, ev_timestamp = ts, ev_data = Some (JObj [(''source'', JNum 3)]) \<rparr>"

definition rawNoPayload :: "int \<Rightarrow> RRwebEvent" where
  "rawNoPayload ts = \<lparr> ev_type = 3, ev_timestamp = ts, ev_data = None \<rparr>"

definition rawSession :: "string option \<Rightarrow> RRwebEvent list \<Rightarrow> RawSession" where
  "rawSession sid evs = \<lparr> rs_sessionId = sid, rs_records = Some [\<lparr> rec_events = Some evs \<rparr>] \<rparr>"

text \<open>Two sessions, the second of which holds one record without a payload.\<close>

definition oneBadRecord :: RawInput where
  "oneBadRecord =
     SessionsArray [rawSession (Some ''good'') [rawScroll 1, rawScroll 2],
                    rawSession (Some ''bad'') [rawScroll 3, rawNoPayload 4]]"

text \<open>The same input without the bad record.\<close>

definition noBadRecord :: RawInput where
  "noBadRecord =
     SessionsArray [rawSession (Some ''good'') [rawScroll 1, rawScroll 2],
                    rawSession (Some ''bad'') [rawScroll 3]]"

text \<open>Every session of the input carries a truthy \<^verbatim>\<open>sessionId\<close>.\<close>

definition hasSessionId :: "RawSession \<Rightarrow> bool" where
  "hasSessionId s = (case rs_sessionId s of None \<Rightarrow> False | Some i \<Rightarrow> i \<noteq> [])"

definition allIdentified :: "RawInput \<Rightarrow> bool" where
  "allIdentified input = (case input of SessionsArray ss \<Rightarrow> list_all hasSessionId ss | _ \<Rightarrow> True)"

text \<open>One session without a \<^verbatim>\<open>sessionId\<close>.\<close>

definition anonymousInput :: RawInput where
  "anonymousInput = SessionsArray [rawSession None [rawScroll 1]]"


text \<open>Load, then extract.\<close>

definition loadAndExtract :: "(nat \<Rightarrow> string) \<Rightarrow> RawInput \<Rightarrow> KeyMoment list" where
  "loadAndExtract gen input =
     (case loadRRwebData gen input of Inl e \<Rightarrow> [] | Inr rrwebData \<Rightarrow> extractKeyMoments rrwebData)"

subsection \<open>Navigation\<close>



text \<open>A processed event of type \<^verbatim>\<open>Navigate\<close> with the given \<^verbatim>\<open>url\<close> and \<^verbatim>\<open>details.href\<close>; no
  raw record is processed into such an event.\<close>

definition navigate :: "int \<Rightarrow> string \<Rightarrow> ProcessedRRwebEvent" where
  "navigate ts href =
     \<lparr> pe_timestamp = ts, pe_type = ''Navigate'', pe_details = [(''href'', JStr href)],
       pe_url = Some href, pe_element = None \<rparr>"

definition threeNavigations :: ProcessedRRwebData where
  "threeNavigations =
     sessionOf ''nav'' [navigate 0 ''/cart'', navigate 1000 ''/cart'', navigate 2000 ''/cart'']"

subsection \<open>Forms\<close>

text \<open>A raw input event (\<^verbatim>\<open>source = 5\<close>) on a field of the form \<open>formId\<close>.\<close>

definition rawFormInput :: "int \<Rightarrow> string \<Rightarrow> string \<Rightarrow> RRwebEvent" where
  "rawFormInput ts formId text =
     \<lparr> ev_type = 3, ev_timestamp = ts,
       ev_data = Some (JObj [(''source'', JNum 5), (''text'', JStr text),
         (''target'', JObj [(''tagName'', JStr ''INPUT''),
                           (''attributes'', JObj [(''form'', JStr formId)])])]) \<rparr>"

text \<open>A raw click (\<^verbatim>\<open>source = 2\<close>, \<^verbatim>\<open>type = 2\<close>) on a submit button.\<close>

definition rawSubmitClick :: "int \<Rightarrow> RRwebEvent" where
  "rawSubmitClick ts =
     \<lparr> ev_type = 3, ev_timestamp = ts,
       ev_data = Some (JObj [(''source'', JNum 2), (''type'', JNum 2), (''x'', JNum 10), (''y'', JNum 10),
         (''target'', JObj [(''tagName'', JStr ''BUTTON''),
                           (''attributes'', JObj [(''type'', JStr ''submit'')])])]) \<rparr>"

text \<open>One input on form \<open>f1\<close>, and then the session ends.\<close>

definition oneInputOnForm :: RawInput where
  "oneInputOnForm = SessionsArray [rawSession (Some ''s4'') [rawFormInput 100 ''f1'' ''a'']]"

text \<open>Two inputs on form \<open>f1\<close>, a click on the submit button, and then the session ends.\<close>

definition submittedThenEnded :: RawInput where
  "submittedThenEnded =
     SessionsArray [rawSession (Some ''s4'')
       [rawFormInput 100 ''f1'' ''a'', rawFormInput 200 ''f1'' ''ab'', rawSubmitClick 300]]"

text \<open>The processed events of the examples of the claim: an input on a form, a click on a
  submit button.\<close>

definition formInput :: "int \<Rightarrow> string \<Rightarrow> string \<Rightarrow> ProcessedRRwebEvent" where
  "formInput ts formId text =
     \<lparr> pe_timestamp = ts, pe_type = ''IncrementalSnapshot'',
       pe_details = [(''incrementalType'', JStr ''Input''), (''inputType'', JStr ''Input''),
                     (''value'', JStr text)],
       pe_url = None,
       pe_element = Some \<lparr> el_tag = Some ''INPUT'', el_id = None, el_className = None,
                           el_textContent = None, el_attributes = Some [(''form'', formId)],
                           el_position = None \<rparr> \<rparr>"

definition submitClick :: "int \<Rightarrow> ProcessedRRwebEvent" where
  "submitClick ts =
     \<lparr> pe_timestamp = ts, pe_type = ''IncrementalSnapshot'',
       pe_details = [(''incrementalType'', JStr ''MouseInteraction''), (''interactionType'', JStr ''Click'')],
       pe_url = None,
       pe_element = Some \<lparr> el_tag = Some ''BUTTON'', el_id = None, el_className = None,
                           el_textContent = None, el_attributes = Some [(''type'', ''submit'')],
                           el_position = Some \<lparr> pos_x = Some 10, pos_y = Some 10,
                                                 pos_width = None, pos_height = None \<rparr> \<rparr> \<rparr>"

definition submittedForm :: ProcessedRRwebData where
  "submittedForm =
     sessionOf ''f'' [formInput 100 ''f1'' ''a'', formInput 200 ''f1'' ''ab'', submitClick 300,
                      navigate 400 ''/done'']"

definition abandonedForm :: ProcessedRRwebData where
  "abandonedForm =
     sessionOf ''f'' [formInput 100 ''f1'' ''a'', formInput 200 ''f1'' ''ab'', navigate 400 ''/done'']"

text \<open>What the two checks for form abandonment have in common: a \<^verbatim>\<open>FormAbandonment\<close>
  pushed at a navigation (no \<^verbatim>\<open>formCompleted\<close> field) counts at least two inputs, one pushed
  at the end of the session (\<^verbatim>\<open>formCompleted: false\<close>) counts at least one.\<close>

definition countedAbandonment :: "KeyMoment \<Rightarrow> bool" where
  "countedAbandonment m =
     (case km_body m of
        FormAbandonment f n v c fc \<Rightarrow> (fc = None \<and> 2 \<le> n) \<or> (fc = Some False \<and> 1 \<le> n)
      | _ \<Rightarrow> True)"

text \<open>The \<^verbatim>\<open>formId\<close>, \<^verbatim>\<open>interactionCount\<close> and \<^verbatim>\<open>formCompleted\<close> of the \<^verbatim>\<open>FormAbandonment\<close>
  moments of a list.\<close>

fun abandonment :: "KeyMoment \<Rightarrow> (string \<times> nat \<times> bool option) list" where
  "abandonment m =
     (case km_body m of FormAbandonment f n v c fc \<Rightarrow> [(f, n, fc)] | _ \<Rightarrow> [])"

definition abandonments :: "KeyMoment list \<Rightarrow> (string \<times> nat \<times> bool option) list" where
  "abandonments ms = concat (map abandonment ms)"

subsection \<open>The tracking variables during the second loop\<close>

text \<open>The tracking variables when the second loop reaches index \<open>i\<close>.\<close>

definition trackingAt :: "Scan \<Rightarrow> nat \<Rightarrow> Tracking" where
  "trackingAt sc i = fst (runPass (secondPassStep sc) trackingInit [0 ..< i])"

subsection \<open>Mouse hovering\<close>

definition isMouseMove :: "ProcessedRRwebEvent \<Rightarrow> bool" where
  "isMouseMove e = isIncremental e ''MouseMove''"

text \<open>The mouse moves among the first \<open>i\<close> events, and the timestamp of the last of them
  (0 when there is none): the previous hover check.\<close>

definition movesUpTo :: "ProcessedRRwebEvent list \<Rightarrow> nat \<Rightarrow> ProcessedRRwebEvent list" where
  "movesUpTo evs i = filter isMouseMove (take i evs)"

definition previousMoveTime :: "ProcessedRRwebEvent list \<Rightarrow> nat \<Rightarrow> int" where
  "previousMoveTime evs i = (if movesUpTo evs i = [] then 0 else pe_timestamp (last (movesUpTo evs i)))"

text \<open>The positions of the last three mouse moves up to and including event \<open>i\<close>.\<close>

definition lastPositions :: "ProcessedRRwebEvent list \<Rightarrow> nat \<Rightarrow> (int option \<times> int option) list" where
  "lastPositions evs i = map firstPosition (lastN 3 (movesUpTo evs (Suc i)))"

text \<open>The amended condition of claim C8 on the event at index \<open>i\<close>: it is a mouse move, at
  least three mouse moves have been seen with it, more than 3 s have passed since the
  mouse move before it, every one of the last three positions differs from \<open>(0, 0)\<close>, and
  each of them is within 30 px of the one before on both axes.\<close>

definition hovers :: "ProcessedRRwebEvent list \<Rightarrow> nat \<Rightarrow> bool" where
  "hovers evs i =
     (isMouseMove (evs ! i)
      \<and> 3 \<le> length (movesUpTo evs (Suc i))
      \<and> 3000 < pe_timestamp (evs ! i) - previousMoveTime evs i
      \<and> list_all positionValid (lastPositions evs i)
      \<and> allPositionsWithinRange (lastPositions evs i))"

definition hoverOf :: "ProcessedRRwebData \<Rightarrow> nat \<Rightarrow> KeyMoment" where
  "hoverOf session i =
     \<lparr> km_timestamp = pe_timestamp (events session ! i), km_sessionId = sessionId session,
       km_url = Some (currentUrl (fst (firstPass session))),
       km_body = MouseHovering
                   (pe_timestamp (events session ! i)
                      - pe_timestamp (hd (lastN 3 (movesUpTo (events session) (Suc i)))))
                   (last (lastPositions (events session) i))
                   (getContextAroundEvent (events session) i 3) \<rparr>"




subsection \<open>Rage clicks\<close>

text \<open>The click and mouse-down events among the first \<open>i\<close> events, and the timestamp of
  the last of them (0 when there is none).\<close>

definition clicksUpTo :: "ProcessedRRwebEvent list \<Rightarrow> nat \<Rightarrow> ProcessedRRwebEvent list" where
  "clicksUpTo evs i = filter isClickOrMouseDown (take i evs)"

definition previousClickTime :: "ProcessedRRwebEvent list \<Rightarrow> nat \<Rightarrow> int" where
  "previousClickTime evs i =
     (if clicksUpTo evs i = [] then 0 else pe_timestamp (last (clicksUpTo evs i)))"

text \<open>The current run of clicks before the event at index \<open>i\<close>, in the words of the amended
  claim C3: a click that comes 1000 ms or more after the click before it starts a new
  run with itself; a click that comes sooner joins the run, and empties it when at least
  3 events of the run, itself included, are within 20 px of it on both axes (that is
  when a \<^verbatim>\<open>RageClick\<close> is emitted).\<close>

fun clickRun :: "ProcessedRRwebEvent list \<Rightarrow> nat \<Rightarrow> ProcessedRRwebEvent list" where
  "clickRun evs 0 = []"
| "clickRun evs (Suc i) =
     (if \<not> isClickOrMouseDown (evs ! i) then clickRun evs i
      else if pe_timestamp (evs ! i) - previousClickTime evs i < 1000 then
        (if 3 \<le> length (filter (sameArea (evs ! i)) (clickRun evs i @ [evs ! i])) then []
         else clickRun evs i @ [evs ! i])
      else [evs ! i])"

text \<open>The events of the run, the one at \<open>i\<close> included, in the area of the event at \<open>i\<close>.\<close>

definition sameAreaClicks :: "ProcessedRRwebEvent list \<Rightarrow> nat \<Rightarrow> ProcessedRRwebEvent list" where
  "sameAreaClicks evs i = filter (sameArea (evs ! i)) (clickRun evs i @ [evs ! i])"



text \<open>Consecutive events of a list less than 1000 ms apart.\<close>

fun closelySpaced :: "ProcessedRRwebEvent list \<Rightarrow> bool" where
  "closelySpaced (a # b # es) = (pe_timestamp b - pe_timestamp a < 1000 \<and> closelySpaced (b # es))"
| "closelySpaced es = True"







subsection \<open>External events\<close>





section \<open>The loop combinator\<close>

lemma runPass_append:
  "runPass f s (xs @ ys) =
     (case runPass f s xs of (s', ms) \<Rightarrow> (case runPass f s' ys of (s'', ms') \<Rightarrow> (s'', ms @ ms')))"
  by (induction xs arbitrary: s) (auto split: prod.splits)

lemma runPass_snoc:
  "runPass f s (xs @ [x]) =
     (case runPass f s xs of (s', ms) \<Rightarrow> (case f s' x of (s'', ms') \<Rightarrow> (s'', ms @ ms')))"
  by (simp add: runPass_append split: prod.splits)

text \<open>The moments of a loop over the indices are those of each iteration, run from the state
  that the iterations before it left.\<close>

lemma runPass_upt:
  "snd (runPass f s [0 ..< n]) =
     concat (map (\<lambda>i. snd (f (fst (runPass f s [0 ..< i])) i)) [0 ..< n])"
  by (induction n) (auto simp: runPass_snoc split: prod.splits)

lemma runPass_filter:
  assumes "\<And>s x. x \<in> set xs \<Longrightarrow> filter P (snd (f s x)) = g x"
  shows "filter P (snd (runPass f s xs)) = concat (map g xs)"
  using assms
proof (induction xs arbitrary: s)
  case Nil
  then show ?case by simp
next
  case (Cons x xs)
  obtain s' ms where 1: "f s x = (s', ms)" by (cases "f s x")
  obtain s'' ms' where 2: "runPass f s' xs = (s'', ms')" by (cases "runPass f s' xs")
  have "filter P ms = g x"
    using Cons.prems [of x s] 1 by simp
  moreover have "filter P ms' = concat (map g xs)"
    using Cons.IH [of s'] Cons.prems 2 by simp
  ultimately show ?case
    using 1 2 by simp
qed

lemma runPass_filter_none:
  assumes "\<And>s x m. m \<in> set (snd (f s x)) \<Longrightarrow> \<not> P m"
  shows "filter P (snd (runPass f s xs)) = []"
proof -
  have "filter P (snd (runPass f s xs)) = concat (map (\<lambda>x. []) xs)"
    by (rule runPass_filter) (use assms in \<open>auto simp: filter_empty_conv\<close>)
  then show ?thesis by simp
qed

lemma runPass_all:
  assumes "\<And>s x m. m \<in> set (snd (f s x)) \<Longrightarrow> P m"
  shows "m \<in> set (snd (runPass f s xs)) \<Longrightarrow> P m"
proof (induction xs arbitrary: s)
  case Nil
  then show ?case by simp
next
  case (Cons x xs)
  obtain s' ms where 1: "f s x = (s', ms)" by (cases "f s x")
  obtain s'' ms' where 2: "runPass f s' xs = (s'', ms')" by (cases "runPass f s' xs")
  from Cons.prems 1 2 have "m \<in> set ms \<or> m \<in> set ms'" by simp
  then show ?case
  proof
    assume "m \<in> set ms"
    then show ?thesis using assms [of m s x] 1 by simp
  next
    assume "m \<in> set ms'"
    then show ?thesis using Cons.IH [of s'] 2 by simp
  qed
qed

section \<open>The type of the moments that each detector pushes\<close>

lemma hasType_moment [simp]: "hasType ty (moment ts sid url b) = (momentType b = ty)"
  by (simp add: hasType_def moment_def)

lemma hasType_emit [simp]: "hasType ty (emit sc i b) = (momentType b = ty)"
  by (simp add: emit_def)

lemma firstPassStep_types:
  "m \<in> set (snd (firstPassStep sid st e)) \<Longrightarrow> hasType ''NavigationLoop'' m \<or> hasType ''JSError'' m"
  by (auto simp: firstPassStep_def detectNavigationLoop_def detectJSError_def Let_def
      split: option.splits if_splits prod.splits)

lemma rage_types: "m \<in> set (snd (detectRageClick sc i t)) \<Longrightarrow> hasType ''RageClick'' m"
  by (auto simp: detectRageClick_def Let_def split: if_splits)

lemma dead_types: "m \<in> set (detectDeadClick sc i) \<Longrightarrow> hasType ''DeadClick'' m"
  by (auto simp: detectDeadClick_def Let_def split: if_splits option.splits)

lemma form_types: "m \<in> set (snd (detectFormAbandonment sc i t)) \<Longrightarrow> hasType ''FormAbandonment'' m"
  by (auto simp: detectFormAbandonment_def Let_def split: if_splits option.splits)

lemma scroll_types: "m \<in> set (snd (detectRapidScrolling sc i t)) \<Longrightarrow> hasType ''RapidScrolling'' m"
  by (auto simp: detectRapidScrolling_def Let_def split: if_splits)

lemma hover_types: "m \<in> set (snd (detectMouseHovering sc i t)) \<Longrightarrow> hasType ''MouseHovering'' m"
  by (auto simp: detectMouseHovering_def Let_def split: if_splits)

lemma hesitation_types: "m \<in> set (detectHesitation sc i) \<Longrightarrow> hasType ''Hesitation'' m"
  by (auto simp: detectHesitation_def Let_def split: if_splits)

lemma multi_types: "m \<in> set (detectMultipleSubmissions sc i) \<Longrightarrow> hasType ''MultipleSubmissions'' m"
proof -
  have "list_all (hasType ''MultipleSubmissions'') (detectMultipleSubmissions sc i)"
    by (simp add: detectMultipleSubmissions_def Let_def split: option.split)
  then show "m \<in> set (detectMultipleSubmissions sc i) \<Longrightarrow> hasType ''MultipleSubmissions'' m"
    by (simp add: list_all_iff)
qed

lemma hscroll_types: "m \<in> set (detectHorizontalScroll sc i) \<Longrightarrow> hasType ''HorizontalScrollMobile'' m"
proof -
  have "list_all (hasType ''HorizontalScrollMobile'') (detectHorizontalScroll sc i)"
    by (simp add: detectHorizontalScroll_def Let_def split: option.split)
  then show "m \<in> set (detectHorizontalScroll sc i) \<Longrightarrow> hasType ''HorizontalScrollMobile'' m"
    by (simp add: list_all_iff)
qed

lemma endOfSession_types: "m \<in> set (endOfSessionAbandonment sc t) \<Longrightarrow> hasType ''FormAbandonment'' m"
  by (auto simp: endOfSessionAbandonment_def split: if_splits option.splits)

lemma shortSession_types: "m \<in> set (shortSession session fp) \<Longrightarrow> hasType ''ShortSession'' m"
  by (auto simp: shortSession_def split: if_splits)

lemma sessionMetrics_type: "hasType ty (sessionMetrics session fp) = (ty = ''SessionMetrics'')"
  by (auto simp: sessionMetrics_def hasType_def)

text \<open>The moments of one iteration of the second loop, detector by detector.\<close>

lemma secondPassStep_moments:
  "snd (secondPassStep sc t i) =
     snd (detectRageClick sc i t) @ detectDeadClick sc i
     @ snd (detectFormAbandonment sc i (trackInput sc i (fst (detectRageClick sc i t))))
     @ snd (detectRapidScrolling sc i
              (fst (detectFormAbandonment sc i (trackInput sc i (fst (detectRageClick sc i t))))))
     @ snd (detectMouseHovering sc i
              (fst (detectRapidScrolling sc i
                 (fst (detectFormAbandonment sc i (trackInput sc i (fst (detectRageClick sc i t))))))))
     @ detectHesitation sc i @ detectMultipleSubmissions sc i @ detectHorizontalScroll sc i"
  by (simp add: secondPassStep_def split: prod.splits)

lemma secondPassStep_types:
  assumes "m \<in> set (snd (secondPassStep sc t i))"
  shows "\<exists>ty \<in> set secondPassTypes. hasType ty m"
  using assms unfolding secondPassStep_moments secondPassTypes_def
  by (auto dest: rage_types dead_types form_types scroll_types hover_types hesitation_types
      multi_types hscroll_types)

lemma hasType_unique: "hasType a m \<Longrightarrow> hasType b m \<Longrightarrow> a = b"
  by (simp add: hasType_def)

lemma firstPass_no_type:
  assumes "ty \<noteq> ''NavigationLoop''" "ty \<noteq> ''JSError''"
  shows "filter (hasType ty) (snd (firstPass session)) = []"
  unfolding firstPass_def
  by (rule runPass_filter_none) (use assms in \<open>auto dest!: firstPassStep_types dest: hasType_unique\<close>)

lemma secondPass_no_type:
  assumes "ty \<notin> set secondPassTypes"
  shows "filter (hasType ty) (snd (secondPass sc)) = []"
  unfolding secondPass_def
proof (rule runPass_filter_none)
  fix s x m
  assume "m \<in> set (snd (secondPassStep sc s x))"
  then obtain ty' where "ty' \<in> set secondPassTypes" "hasType ty' m"
    using secondPassStep_types by blast
  with assms show "\<not> hasType ty m"
    using hasType_unique by blast
qed

section \<open>Session metrics\<close>





section \<open>Selecting the moments of one detector\<close>

lemma filter_other_type:
  assumes "\<And>m. m \<in> set ms \<Longrightarrow> hasType ty' m" "ty \<noteq> ty'"
  shows "filter (hasType ty) ms = []"
  using assms by (auto simp: filter_empty_conv dest: hasType_unique)

lemma filter_same_type:
  assumes "\<And>m. m \<in> set ms \<Longrightarrow> hasType ty m"
  shows "filter (hasType ty) ms = ms"
  using assms by (simp add: filter_id_conv)

lemmas other_types =
  filter_other_type [OF rage_types] filter_other_type [OF dead_types]
  filter_other_type [OF form_types] filter_other_type [OF scroll_types]
  filter_other_type [OF hover_types] filter_other_type [OF hesitation_types]
  filter_other_type [OF multi_types] filter_other_type [OF hscroll_types]
  filter_other_type [OF endOfSession_types] filter_other_type [OF shortSession_types]

lemma concat_map_if:
  "concat (map (\<lambda>i. if c i then [h i] else []) xs) = map h (filter c xs)"
  by (induction xs) simp_all

text \<open>The moments of a detector of the second loop among the moments of a session.\<close>

lemma extractSession_second_pass:
  assumes "ty \<in> set secondPassTypes" "ty \<noteq> ''FormAbandonment''" "events session \<noteq> []"
  shows "filter (hasType ty) (extractSession session) =
           filter (hasType ty) (snd (secondPass (scanOf session (fst (firstPass session)))))"
proof -
  obtain fp ms1 where fp: "firstPass session = (fp, ms1)" by (cases "firstPass session")
  obtain t ms2 where sp: "secondPass (scanOf session fp) = (t, ms2)"
    by (cases "secondPass (scanOf session fp)")
  have ty: "ty \<noteq> ''NavigationLoop''" "ty \<noteq> ''JSError''" "ty \<noteq> ''ShortSession''"
    "ty \<noteq> ''SessionMetrics''"
    using assms(1) by (auto simp: secondPassTypes_def)
  have 1: "filter (hasType ty) ms1 = []"
    using firstPass_no_type [OF ty(1,2), of session] fp by simp
  have 3: "filter (hasType ty) (endOfSessionAbandonment (scanOf session fp) t) = []"
    using assms(2) by (simp add: other_types)
  have 4: "filter (hasType ty) (shortSession session fp) = []"
    using ty(3) by (simp add: other_types)
  show ?thesis
    using assms(3) fp sp 1 3 4 ty(4) by (simp add: extractSession_def sessionMetrics_type)
qed

section \<open>Hesitation\<close>






section \<open>What the event processor can produce\<close>

lemma mapE_Inr_set:
  "mapE f xs = Inr ys \<Longrightarrow> y \<in> set ys \<Longrightarrow> \<exists>x \<in> set xs. f x = Inr y"
  by (induction xs arbitrary: ys) (auto split: sum.splits)

lemma mapE_Inr_length: "mapE f xs = Inr ys \<Longrightarrow> length ys = length xs"
  by (induction xs arbitrary: ys) (auto split: sum.splits)


lemma eventTypeMap_incremental:
  "(case eventTypeMap n of None \<Rightarrow> ''Unknown'' | Some s \<Rightarrow> s) = ''IncrementalSnapshot'' \<longleftrightarrow> n = 3"
  by (simp add: eventTypeMap_def)

lemma eventTypeMap_not_Navigate:
  "(case eventTypeMap n of None \<Rightarrow> ''Unknown'' | Some s \<Rightarrow> s) \<noteq> ''Navigate''"
  by (simp add: eventTypeMap_def)

lemma processIncremental_type:
  "detail (processIncremental ev d) ''incrementalType'' =
     Some (JStr (nameOr incrementalTypeMap (jget d ''source'')))"
  by (simp add: processIncremental_def detail_def mkEvent_def Let_def)

lemma processed_type:
  "processRRwebEvent ev = Inr e \<Longrightarrow>
     pe_type e = (case eventTypeMap (ev_type ev) of None \<Rightarrow> ''Unknown'' | Some s \<Rightarrow> s)"
  by (auto simp: processRRwebEvent_def processIncremental_def mkEvent_def Let_def
      split: if_splits option.splits json.splits)


lemma processed_not_Navigate:
  "processRRwebEvent ev = Inr e \<Longrightarrow> pe_type e \<noteq> ''Navigate''"
  by (simp add: processed_type eventTypeMap_not_Navigate)

section \<open>JavaScript errors\<close>

lemma trackViewport_fields [simp]:
  "errorEvents (trackViewport st e) = errorEvents st"
  "navigationEvents (trackViewport st e) = navigationEvents st"
  "currentUrl (trackViewport st e) = currentUrl st"
  by (auto simp: trackViewport_def split: option.splits)

lemma detectNavigationLoop_errorEvents [simp]:
  "errorEvents (fst (detectNavigationLoop sid st e)) = errorEvents st"
  by (auto simp: detectNavigationLoop_def Let_def split: option.splits)







section \<open>Loading\<close>

lemma loadRRwebData_Inr: "\<exists>rrwebData. loadRRwebData gen input = Inr rrwebData"
  by (simp add: loadRRwebData_def split: sum.splits)

lemma loadRRwebData_malformed:
  "malformedTopLevel input \<Longrightarrow> loadRRwebData gen input = Inr []"
  by (cases input) (simp_all add: malformedTopLevel_def loadRRwebData_def tryLoad_def)

text \<open>
  Claim C7, as amended. For every input to the load step: if the top-level input is
  malformed (the file is missing or is not JSON, or the value is falsy or has no
  \<^verbatim>\<open>sessions\<close> array), the call returns the empty list, it does not fail; and for every
  input, whatever its records are, the call returns a list and raises nothing (\<open>Inl e\<close>
  is an error \<open>e\<close> that escapes the call).
\<close>

theorem load_never_fails:
  "loadRRwebData gen input \<noteq> Inl e \<and>
   (malformedTopLevel input \<longrightarrow> loadRRwebData gen input = Inr [])"
  using loadRRwebData_Inr [of gen input] loadRRwebData_malformed [of input gen] by auto

theorem load_never_fails_witness:
  "malformedTopLevel NoSessionsArray \<and>
   loadRRwebData firstRunIds NoSessionsArray \<noteq> Inl TypeError \<and>
   loadRRwebData firstRunIds NoSessionsArray = Inr []"
proof -
  have h: "malformedTopLevel NoSessionsArray"
    by (simp add: malformedTopLevel_def)
  show ?thesis
    using h load_never_fails [of firstRunIds NoSessionsArray TypeError] by simp
qed

text \<open>
  Claim C7, as stated, fails. Malformed top-level input does not fail, with an
  \<^verbatim>\<open>InvalidInputError\<close> or with any other error: the call returns the empty list, which is
  also what it returns for a file of zero sessions. And one record without a payload
  in the second session empties the whole result, the first session included, while the
  same input without that record loads both sessions.
\<close>

theorem malformed_input_returns_empty_list:
  "loadRRwebData firstRunIds NoSessionsArray = Inr [] \<and>
   loadRRwebData firstRunIds NotJson = Inr [] \<and>
   loadRRwebData firstRunIds oneBadRecord = Inr [] \<and>
   map_sum id (map sessionId) (loadRRwebData firstRunIds noBadRecord) = Inr [''good'', ''bad'']"
  by code_simp

section \<open>Determinism\<close>

lemma loadSession_identified:
  "hasSessionId s \<Longrightarrow> loadSession fresh s = loadSession fresh' s"
  by (auto simp: hasSessionId_def loadSession_def split: option.splits)

lemma loadSessions_identified:
  "list_all hasSessionId ss \<Longrightarrow> loadSessions gen k ss = loadSessions gen' k' ss"
proof (induction ss arbitrary: k k')
  case Nil
  then show ?case by simp
next
  case (Cons s ss)
  then have "loadSession (gen k) s = loadSession (gen' k') s"
    by (simp add: loadSession_identified)
  moreover have "loadSessions gen (Suc k) ss = loadSessions gen' (Suc k') ss"
    using Cons by simp
  ultimately show ?case by (simp split: sum.splits)
qed

lemma loadRRwebData_identified:
  "allIdentified input \<Longrightarrow> loadRRwebData gen input = loadRRwebData gen' input"
  by (cases input)
     (simp_all add: allIdentified_def loadRRwebData_def tryLoad_def
        loadSessions_identified [of _ gen 0 gen' 0])

text \<open>
  Claim C9, as amended. For every fixed pair of inputs in which every session carries a
  non-empty \<^verbatim>\<open>sessionId\<close>, two runs of the pipeline (load and normalise, extract key
  moments, temporal join) produce identical output, whatever \<^verbatim>\<open>Date.now()\<close> and
  \<^verbatim>\<open>Math.random()\<close> return in each run.
\<close>

theorem pipeline_deterministic_with_session_ids:
  "allIdentified input \<Longrightarrow>
     pipeline gen getTime input posthogEvents = pipeline gen' getTime input posthogEvents"
  by (simp add: pipeline_def loadRRwebData_identified [of input gen gen'])

theorem pipeline_deterministic_with_session_ids_witness:
  "allIdentified noBadRecord \<and>
   pipeline firstRunIds oneDate noBadRecord [firstPageview] =
     pipeline secondRunIds oneDate noBadRecord [firstPageview]"
proof -
  have h: "allIdentified noBadRecord"
    by code_simp
  show ?thesis
    using h
      pipeline_deterministic_with_session_ids [OF h, of firstRunIds oneDate "[firstPageview]" secondRunIds]
    by simp
qed

text \<open>
  Claim C9, as stated, fails on a session without a \<^verbatim>\<open>sessionId\<close>: the identifier is
  built from the clock and a random number, and two runs on the same input differ in the
  \<^verbatim>\<open>sessionId\<close> of every moment.
\<close>

theorem anonymous_session_differs_between_runs:
  "pipeline firstRunIds noDates anonymousInput [] \<noteq> pipeline secondRunIds noDates anonymousInput []"
  by code_simp

section \<open>Navigation loops\<close>

lemma loadSession_events:
  assumes "loadSession fresh s = Inr d"
  shows "mapE processRRwebEvent (sort_key ev_timestamp (allEventsOf s)) = Inr (events d)"
  using assms by (auto simp: loadSession_def Let_def split: sum.splits)

lemma loadSessions_events:
  "loadSessions gen k ss = Inr ds \<Longrightarrow> d \<in> set ds \<Longrightarrow>
     \<exists>raw. mapE processRRwebEvent raw = Inr (events d)"
proof (induction ss arbitrary: k ds)
  case Nil
  then show ?case by simp
next
  case (Cons s ss)
  from Cons.prems(1) obtain d0 ds0 where
    d0: "loadSession (gen k) s = Inr d0" and ds0: "loadSessions gen (Suc k) ss = Inr ds0"
    and ds: "ds = d0 # ds0"
    by (auto split: sum.splits)
  show ?case
  proof (cases "d = d0")
    case True
    then show ?thesis using loadSession_events [OF d0] by blast
  next
    case False
    then have "d \<in> set ds0" using Cons.prems(2) ds by simp
    then show ?thesis using Cons.IH [OF ds0] by blast
  qed
qed

lemma loadRRwebData_events:
  assumes "loadRRwebData gen input = Inr ds" "d \<in> set ds"
  shows "\<exists>raw. mapE processRRwebEvent raw = Inr (events d)"
proof (cases input)
  case (SessionsArray ss)
  then show ?thesis
    using assms loadSessions_events [of gen 0 ss ds d]
    by (auto simp: loadRRwebData_def tryLoad_def split: sum.splits)
qed (use assms in \<open>auto simp: loadRRwebData_def tryLoad_def\<close>)

lemma firstPassStep_no_Navigate:
  "pe_type e \<noteq> ''Navigate'' \<Longrightarrow> filter (hasType ''NavigationLoop'') (snd (firstPassStep sid st e)) = []"
  by (auto simp: firstPassStep_def detectJSError_def detectNavigationLoop_def Let_def
      split: prod.splits option.splits)

lemma no_Navigate_no_loop:
  assumes "\<And>e. e \<in> set (events session) \<Longrightarrow> pe_type e \<noteq> ''Navigate''"
  shows "filter (hasType ''NavigationLoop'') (extractSession session) = []"
proof -
  obtain fp ms1 where fp: "firstPass session = (fp, ms1)" by (cases "firstPass session")
  obtain t ms2 where sp: "secondPass (scanOf session fp) = (t, ms2)"
    by (cases "secondPass (scanOf session fp)")
  have "filter (hasType ''NavigationLoop'') (snd (firstPass session)) = concat (map (\<lambda>e. []) (events session))"
    unfolding firstPass_def
    by (rule runPass_filter) (use assms in \<open>simp add: firstPassStep_no_Navigate\<close>)
  then have 1: "filter (hasType ''NavigationLoop'') ms1 = []"
    using fp by simp
  have 2: "filter (hasType ''NavigationLoop'') ms2 = []"
    using secondPass_no_type [of "''NavigationLoop''" "scanOf session fp"] sp
    by (simp add: secondPassTypes_def)
  show ?thesis
    using fp sp 1 2 by (simp add: extractSession_def other_types sessionMetrics_type)
qed

text \<open>No raw record is processed into a \<^verbatim>\<open>Navigate\<close> event, whatever the input, so the
  sessions that the load step produces never yield a \<^verbatim>\<open>NavigationLoop\<close> moment.\<close>

lemma loaded_sessions_never_loop:
  "filter (hasType ''NavigationLoop'') (loadAndExtract gen input) = []"
proof -
  obtain ds where ds: "loadRRwebData gen input = Inr ds"
    using loadRRwebData_Inr by blast
  have "filter (hasType ''NavigationLoop'') (extractSession d) = []" if mem: "d \<in> set ds" for d
  proof -
    obtain raw where raw: "mapE processRRwebEvent raw = Inr (events d)"
      using loadRRwebData_events [OF ds mem] by blast
    have "pe_type e \<noteq> ''Navigate''" if "e \<in> set (events d)" for e
      using mapE_Inr_set [OF raw that] processed_not_Navigate by blast
    then show ?thesis by (rule no_Navigate_no_loop)
  qed
  then have "filter (hasType ''NavigationLoop'') (concat (map extractSession ds)) = []"
    by (induction ds) simp_all
  then show ?thesis
    using ds by (simp add: loadAndExtract_def extractKeyMoments_def)
qed


text \<open>The detector itself fires on a session built by hand from \<^verbatim>\<open>Navigate\<close> events that carry
  the address both as \<^verbatim>\<open>url\<close> and as \<^verbatim>\<open>details.href\<close>.\<close>

lemma handmade_navigations_loop:
  "map km_body (filter (hasType ''NavigationLoop'') (extractKeyMoments [threeNavigations])) =
     [NavigationLoop 3 120000]"
  by code_simp

section \<open>Form abandonment\<close>

text \<open>
  Claim C4 on the code. A session of a single input on form \<open>f1\<close> ends with the form open:
  the end-of-session check pushes a \<^verbatim>\<open>FormAbandonment\<close> with \<^verbatim>\<open>interactionCount = 1\<close>, below
  the two inputs that the claim and the check at a navigation ask for. The same check
  pushes a \<^verbatim>\<open>FormAbandonment\<close> for a session that ends after a click on the submit button.
\<close>

theorem one_input_is_abandonment_at_session_end:
  "abandonments (loadAndExtract firstRunIds oneInputOnForm) = [(''f1'', 1, Some False)] \<and>
   abandonments (loadAndExtract firstRunIds submittedThenEnded) = [(''f1'', 2, Some False)]"
  by code_simp

text \<open>The two examples of the claim, where the form is left by a navigation, hold on the
  code: no \<^verbatim>\<open>FormAbandonment\<close> after a submit click, one with \<^verbatim>\<open>interactionCount = 2\<close>
  without it.\<close>

lemma navigation_examples_of_form_abandonment:
  "abandonments (extractKeyMoments [submittedForm]) = [] \<and>
   abandonments (extractKeyMoments [abandonedForm]) = [(''f1'', 2, None)]"
  by code_simp

text \<open>On every session, a \<^verbatim>\<open>FormAbandonment\<close> pushed at a navigation counts at least two
  inputs; only the check at the end of the session accepts one.\<close>

lemma other_type_counted: "hasType ty m \<Longrightarrow> ty \<noteq> ''FormAbandonment'' \<Longrightarrow> countedAbandonment m"
  by (cases "km_body m") (auto simp: hasType_def countedAbandonment_def)

lemma form_step_counted:
  "m \<in> set (snd (detectFormAbandonment sc i t)) \<Longrightarrow> countedAbandonment m"
  by (auto simp: detectFormAbandonment_def Let_def countedAbandonment_def emit_def moment_def
      split: if_splits option.splits)

lemma end_counted:
  "m \<in> set (endOfSessionAbandonment sc t) \<Longrightarrow> countedAbandonment m"
  by (auto simp: endOfSessionAbandonment_def countedAbandonment_def moment_def Suc_le_eq
      split: if_splits option.splits)

lemma step_counted:
  assumes "m \<in> set (snd (secondPassStep sc t i))"
  shows "countedAbandonment m"
  using assms unfolding secondPassStep_moments
  by (auto dest: form_step_counted
      dest!: rage_types dead_types scroll_types hover_types hesitation_types multi_types hscroll_types
      intro: other_type_counted)

lemma extractSession_counted:
  assumes "m \<in> set (extractSession session)"
  shows "countedAbandonment m"
proof -
  obtain fp ms1 where fp: "firstPass session = (fp, ms1)" by (cases "firstPass session")
  obtain t ms2 where sp: "secondPass (scanOf session fp) = (t, ms2)"
    by (cases "secondPass (scanOf session fp)")
  have 1: "countedAbandonment m" if "m \<in> set ms1" for m
  proof -
    have "m \<in> set (snd (runPass (firstPassStep (sessionId session)) (firstPassInit session) (events session)))"
      using that fp by (simp add: firstPass_def)
    then have "hasType ''NavigationLoop'' m \<or> hasType ''JSError'' m"
      by (rule runPass_all [rotated]) (rule firstPassStep_types)
    then show ?thesis by (auto intro: other_type_counted)
  qed
  have 2: "countedAbandonment m" if "m \<in> set ms2" for m
  proof -
    have "m \<in> set (snd (runPass (secondPassStep (scanOf session fp)) trackingInit
            [0 ..< length (sc_events (scanOf session fp))]))"
      using that sp by (simp add: secondPass_def)
    then show ?thesis
      by (rule runPass_all [rotated]) (rule step_counted)
  qed
  have 3: "countedAbandonment (sessionMetrics session fp)"
    by (simp add: countedAbandonment_def sessionMetrics_def)
  show ?thesis
    using assms fp sp 1 2 3
    by (auto simp: extractSession_def split: if_splits
        dest: end_counted dest!: shortSession_types intro: other_type_counted)
qed

section \<open>The second loop, iteration by iteration\<close>

lemma trackingAt_0 [simp]: "trackingAt sc 0 = trackingInit"
  by (simp add: trackingAt_def)

lemma trackingAt_Suc: "trackingAt sc (Suc i) = fst (secondPassStep sc (trackingAt sc i) i)"
  by (simp add: trackingAt_def runPass_snoc split: prod.splits)

lemma secondPass_moments:
  "snd (secondPass sc) =
     concat (map (\<lambda>i. snd (secondPassStep sc (trackingAt sc i) i)) [0 ..< length (sc_events sc)])"
  unfolding secondPass_def trackingAt_def by (rule runPass_upt)

lemma filter_concat_map:
  "filter P (concat (map g xs)) = concat (map (\<lambda>x. filter P (g x)) xs)"
  by (induction xs) simp_all

lemma concat_map_cong_upt:
  assumes "\<And>i. i < n \<Longrightarrow> g i = h i"
  shows "concat (map g [0 ..< n]) = concat (map h [0 ..< n])"
  using assms by (intro arg_cong [where f = concat] map_cong) simp_all

text \<open>The detectors write their own tracking variables only.\<close>

lemma detectRageClick_others [simp]:
  "mouseMovements (fst (detectRageClick sc i t)) = mouseMovements t"
  "lastMouseMoveTime (fst (detectRageClick sc i t)) = lastMouseMoveTime t"
  by (simp_all add: detectRageClick_def Let_def)

lemma trackInput_others [simp]:
  "mouseMovements (trackInput sc i t) = mouseMovements t"
  "lastMouseMoveTime (trackInput sc i t) = lastMouseMoveTime t"
  "clickEvents (trackInput sc i t) = clickEvents t"
  "lastClickTime (trackInput sc i t) = lastClickTime t"
  by (simp_all add: trackInput_def Let_def)

lemma detectFormAbandonment_others [simp]:
  "mouseMovements (fst (detectFormAbandonment sc i t)) = mouseMovements t"
  "lastMouseMoveTime (fst (detectFormAbandonment sc i t)) = lastMouseMoveTime t"
  "clickEvents (fst (detectFormAbandonment sc i t)) = clickEvents t"
  "lastClickTime (fst (detectFormAbandonment sc i t)) = lastClickTime t"
  by (simp_all add: detectFormAbandonment_def Let_def split: option.splits)

lemma detectRapidScrolling_others [simp]:
  "mouseMovements (fst (detectRapidScrolling sc i t)) = mouseMovements t"
  "lastMouseMoveTime (fst (detectRapidScrolling sc i t)) = lastMouseMoveTime t"
  "clickEvents (fst (detectRapidScrolling sc i t)) = clickEvents t"
  "lastClickTime (fst (detectRapidScrolling sc i t)) = lastClickTime t"
  by (simp_all add: detectRapidScrolling_def Let_def)

lemma detectMouseHovering_others [simp]:
  "clickEvents (fst (detectMouseHovering sc i t)) = clickEvents t"
  "lastClickTime (fst (detectMouseHovering sc i t)) = lastClickTime t"
  by (simp_all add: detectMouseHovering_def Let_def)

lemma secondPassStep_state:
  "fst (secondPassStep sc t i) =
     fst (detectMouseHovering sc i
            (fst (detectRapidScrolling sc i
               (fst (detectFormAbandonment sc i (trackInput sc i (fst (detectRageClick sc i t))))))))"
  by (simp add: secondPassStep_def split: prod.splits)

lemma scanOf_fields:
  "sc_events (scanOf session fp) = events session"
  "sc_sessionId (scanOf session fp) = sessionId session"
  "sc_url (scanOf session fp) = currentUrl fp"
  "sc_viewport (scanOf session fp) = viewportSize fp"
  by (simp_all add: scanOf_def)

section \<open>Mouse hovering\<close>

lemma detectMouseHovering_mouse:
  "mouseMovements (fst (detectMouseHovering sc i t)) =
     (if isMouseMove (sc_events sc ! i) then mouseMovements t @ [sc_events sc ! i] else mouseMovements t)"
  "lastMouseMoveTime (fst (detectMouseHovering sc i t)) =
     (if isMouseMove (sc_events sc ! i) then pe_timestamp (sc_events sc ! i) else lastMouseMoveTime t)"
  by (simp_all add: detectMouseHovering_def isMouseMove_def Let_def)

lemma detectMouseHovering_cong:
  assumes "mouseMovements t = mouseMovements t'" "lastMouseMoveTime t = lastMouseMoveTime t'"
  shows "snd (detectMouseHovering sc i t) = snd (detectMouseHovering sc i t')"
  using assms by (simp add: detectMouseHovering_def Let_def)

lemma step_hover:
  "filter (hasType ''MouseHovering'') (snd (secondPassStep sc t i)) = snd (detectMouseHovering sc i t)"
proof -
  have "filter (hasType ''MouseHovering'') (snd (secondPassStep sc t i)) =
          snd (detectMouseHovering sc i
                 (fst (detectRapidScrolling sc i
                    (fst (detectFormAbandonment sc i (trackInput sc i (fst (detectRageClick sc i t))))))))"
    unfolding secondPassStep_moments
    by (simp add: other_types filter_same_type [OF hover_types])
  also have "\<dots> = snd (detectMouseHovering sc i t)"
    by (rule detectMouseHovering_cong) simp_all
  finally show ?thesis .
qed

lemma movesUpTo_Suc:
  "i < length evs \<Longrightarrow>
     movesUpTo evs (Suc i) = (if isMouseMove (evs ! i) then movesUpTo evs i @ [evs ! i] else movesUpTo evs i)"
  by (simp add: movesUpTo_def take_Suc_conv_app_nth)

lemma mouse_tracking:
  "i \<le> length (sc_events sc) \<Longrightarrow>
     mouseMovements (trackingAt sc i) = movesUpTo (sc_events sc) i \<and>
     lastMouseMoveTime (trackingAt sc i) = previousMoveTime (sc_events sc) i"
proof (induction i)
  case 0
  then show ?case
    by (simp add: trackingInit_def movesUpTo_def previousMoveTime_def)
next
  case (Suc i)
  then have IH: "mouseMovements (trackingAt sc i) = movesUpTo (sc_events sc) i"
    "lastMouseMoveTime (trackingAt sc i) = previousMoveTime (sc_events sc) i"
    and i: "i < length (sc_events sc)"
    by simp_all
  show ?case
    unfolding trackingAt_Suc secondPassStep_state
    by (simp add: detectMouseHovering_mouse IH movesUpTo_Suc [OF i] previousMoveTime_def)
qed

lemma detectMouseHovering_at:
  assumes "i < length (events session)"
  shows "snd (detectMouseHovering (scanOf session (fst (firstPass session))) i
                (trackingAt (scanOf session (fst (firstPass session))) i)) =
           (if hovers (events session) i then [hoverOf session i] else [])"
proof -
  let ?sc = "scanOf session (fst (firstPass session))"
  have ev: "sc_events ?sc = events session" by (simp add: scanOf_def)
  have tr: "mouseMovements (trackingAt ?sc i) = movesUpTo (events session) i"
    "lastMouseMoveTime (trackingAt ?sc i) = previousMoveTime (events session) i"
    using mouse_tracking [of i ?sc] assms ev by simp_all
  show ?thesis
    using assms
    by (simp add: detectMouseHovering_def Let_def tr scanOf_fields hovers_def hoverOf_def
        lastPositions_def movesUpTo_Suc isMouseMove_def emit_def moment_def)
qed

lemma mouseHovering_moments:
  "filter (hasType ''MouseHovering'') (extractSession session) =
     map (hoverOf session) (filter (hovers (events session)) [0 ..< length (events session)])"
proof (cases "events session = []")
  case True
  then show ?thesis by (simp add: extractSession_def)
next
  case False
  let ?sc = "scanOf session (fst (firstPass session))"
  let ?n = "length (events session)"
  have ev: "sc_events ?sc = events session" by (simp add: scanOf_def)
  have "filter (hasType ''MouseHovering'') (extractSession session) =
          filter (hasType ''MouseHovering'') (snd (secondPass ?sc))"
    using False by (intro extractSession_second_pass) (simp_all add: secondPassTypes_def)
  also have "\<dots> = concat (map (\<lambda>i. snd (detectMouseHovering ?sc i (trackingAt ?sc i))) [0 ..< ?n])"
    by (simp only: secondPass_moments filter_concat_map step_hover ev)
  also have "\<dots> = concat (map (\<lambda>i. if hovers (events session) i then [hoverOf session i] else [])
                       [0 ..< ?n])"
    by (rule concat_map_cong_upt) (rule detectMouseHovering_at)
  also have "\<dots> = map (hoverOf session) (filter (hovers (events session)) [0 ..< ?n])"
    by (rule concat_map_if)
  finally show ?thesis .
qed




text \<open>The event processor copies no \<^verbatim>\<open>positions\<close> into the details of a mouse move, so every
  mouse move of a loaded session reads as \<open>(0, 0)\<close> and a loaded session never yields a
  \<^verbatim>\<open>MouseHovering\<close> moment.\<close>

lemma processed_firstPosition:
  assumes "processRRwebEvent ev = Inr e" "isMouseMove e"
  shows "firstPosition e = (Some 0, Some 0)"
proof -
  have ty: "ev_type ev = 3"
    using assms processed_type [OF assms(1)]
    by (simp add: isMouseMove_def isIncremental_def eventTypeMap_incremental)
  then obtain d where e: "e = processIncremental ev d"
    using assms(1) by (auto simp: processRRwebEvent_def split: option.splits json.splits)
  have "nameOr incrementalTypeMap (jget d ''source'') = ''MouseMove''"
    using assms(2) by (simp add: isMouseMove_def isIncremental_def e processIncremental_type)
  then have "jget d ''source'' \<noteq> Some (JNum 2)" "jget d ''source'' \<noteq> Some (JNum 5)"
    by (auto simp: nameOr_def asNum_def incrementalTypeMap_def)
  then have "pe_details e = [(''incrementalType'', JStr (nameOr incrementalTypeMap (jget d ''source'')))]"
    by (simp add: e processIncremental_def mkEvent_def Let_def)
  then show ?thesis
    by (simp add: firstPosition_def detail_def)
qed

lemma hovers_position:
  assumes "hovers evs i" "i < length evs"
  shows "positionValid (firstPosition (evs ! i))"
proof -
  let ?moves = "movesUpTo evs (Suc i)"
  have moves: "?moves = movesUpTo evs i @ [evs ! i]"
    using assms by (simp add: movesUpTo_Suc hovers_def)
  have "lastN 3 ?moves \<noteq> []" "last (lastN 3 ?moves) = evs ! i"
    by (simp_all add: lastN_def moves)
  then have "evs ! i \<in> set (lastN 3 ?moves)"
    by (metis last_in_set)
  moreover have "list_all positionValid (map firstPosition (lastN 3 ?moves))"
    using assms(1) by (simp add: hovers_def lastPositions_def)
  ultimately show ?thesis
    by (simp add: list_all_iff)
qed

lemma loaded_sessions_never_hover:
  "filter (hasType ''MouseHovering'') (loadAndExtract gen input) = []"
proof -
  obtain ds where ds: "loadRRwebData gen input = Inr ds"
    using loadRRwebData_Inr by blast
  have "filter (hasType ''MouseHovering'') (extractSession d) = []" if mem: "d \<in> set ds" for d
  proof -
    obtain raw where raw: "mapE processRRwebEvent raw = Inr (events d)"
      using loadRRwebData_events [OF ds mem] by blast
    have "\<not> hovers (events d) i" if i: "i < length (events d)" for i
    proof
      assume h: "hovers (events d) i"
      obtain ev where ev: "processRRwebEvent ev = Inr (events d ! i)"
        using mapE_Inr_set [OF raw, of "events d ! i"] i by auto
      have "firstPosition (events d ! i) = (Some 0, Some 0)"
        using ev h by (intro processed_firstPosition) (simp_all add: hovers_def)
      moreover have "positionValid (firstPosition (events d ! i))"
        using h i by (rule hovers_position)
      ultimately show False by (simp add: positionValid_def)
    qed
    then have "filter (hovers (events d)) [0 ..< length (events d)] = []"
      by (simp add: filter_empty_conv)
    then show ?thesis by (simp add: mouseHovering_moments)
  qed
  then have "filter (hasType ''MouseHovering'') (concat (map extractSession ds)) = []"
    by (induction ds) simp_all
  then show ?thesis
    using ds by (simp add: loadAndExtract_def extractKeyMoments_def)
qed

section \<open>Rage clicks\<close>



lemma clicksUpTo_Suc:
  "i < length evs \<Longrightarrow>
     clicksUpTo evs (Suc i) =
       (if isClickOrMouseDown (evs ! i) then clicksUpTo evs i @ [evs ! i] else clicksUpTo evs i)"
  by (simp add: clicksUpTo_def take_Suc_conv_app_nth)



text \<open>The run is a trailing block of the clicks seen so far, and its consecutive clicks are
  less than 1000 ms apart.\<close>

lemma closelySpaced_snoc:
  "closelySpaced (es @ [e]) \<longleftrightarrow>
     closelySpaced es \<and> (es \<noteq> [] \<longrightarrow> pe_timestamp e - pe_timestamp (last es) < 1000)"
  by (induction es rule: closelySpaced.induct) auto

lemma clickRun_block:
  "i \<le> length evs \<Longrightarrow>
     closelySpaced (clickRun evs i) \<and> (\<exists>earlier. clicksUpTo evs i = earlier @ clickRun evs i)"
proof (induction i)
  case 0
  then show ?case by (simp add: clicksUpTo_def)
next
  case (Suc i)
  then have i: "i < length evs" and cs: "closelySpaced (clickRun evs i)" by simp_all
  from Suc obtain earlier where earlier: "clicksUpTo evs i = earlier @ clickRun evs i"
    by auto
  have last: "clickRun evs i \<noteq> [] \<Longrightarrow> previousClickTime evs i = pe_timestamp (last (clickRun evs i))"
    by (simp add: previousClickTime_def earlier)
  have 1: "closelySpaced (clickRun evs (Suc i))"
    using cs last by (auto simp: closelySpaced_snoc)
  have 2: "\<exists>earlier. clicksUpTo evs (Suc i) = earlier @ clickRun evs (Suc i)"
    using earlier by (auto simp: clicksUpTo_Suc [OF i])
  from 1 2 show ?case by blast
qed




section \<open>The temporal join\<close>

subsection \<open>Rounding to a double\<close>

lemma bitlen_bounds: "0 < n \<Longrightarrow> 2 ^ (bitlen n - 1) \<le> n \<and> n < 2 ^ bitlen n"
proof (induction n rule: bitlen.induct)
  case (1 n)
  show ?case
  proof (cases "n div 2 = 0")
    case True
    with "1.prems" have "n = 1" by (simp add: div_eq_0_iff)
    then show ?thesis by (simp add: bitlen.simps [of "Suc 0"] bitlen.simps [of 0])
  next
    case False
    then have IH: "2 ^ (bitlen (n div 2) - 1) \<le> n div 2" "n div 2 < 2 ^ bitlen (n div 2)"
      using "1.IH" "1.prems" by simp_all
    have pos: "0 < bitlen (n div 2)" using False by (simp add: bitlen.simps [of "n div 2"])
    have b: "bitlen n = Suc (bitlen (n div 2))" using "1.prems" by (simp add: bitlen.simps [of n])
    have p: "(2::nat) ^ bitlen (n div 2) = 2 * 2 ^ (bitlen (n div 2) - 1)"
      using pos by (cases "bitlen (n div 2)") simp_all
    have n: "2 * (n div 2) \<le> n" "n < 2 * (n div 2) + 2" by arith+
    have "(2::nat) ^ (bitlen n - 1) \<le> n"
      using IH(1) p n(1) b by simp
    moreover have "n < 2 ^ bitlen n"
      using IH(2) n(2) b by simp
    ultimately show ?thesis by simp
  qed
qed



text \<open>\<open>ilog2 q\<close> is the exponent of \<open>q\<close>: \<open>2\<^sup>e \<le> q < 2\<^sup>e\<^sup>+\<^sup>1\<close>, so the significand that \<open>toDouble\<close>
  rounds lies between \<open>2\<^sup>5\<^sup>2\<close> and \<open>2\<^sup>5\<^sup>3\<close>.\<close>

lemma bitlen_pos: "0 < n \<Longrightarrow> 0 < bitlen n"
  by (subst bitlen.simps) simp

lemma ilog2_gt:
  assumes "0 < q"
  shows "q < 2 powi (ilog2 q + 1)"
proof (cases "1 \<le> q")
  case True
  let ?n = "nat \<lfloor>q\<rfloor>"
  have n: "0 < ?n" using True by simp
  have "?n < 2 ^ bitlen ?n" using bitlen_bounds [OF n] by simp
  then have "Suc ?n \<le> 2 ^ bitlen ?n" by (rule Suc_leI)
  then have "(of_nat (Suc ?n) :: rat) \<le> 2 ^ bitlen ?n"
    by (metis of_nat_le_iff of_nat_numeral of_nat_power)
  moreover have "q < of_nat (Suc ?n)"
  proof -
    have "q < of_int \<lfloor>q\<rfloor> + 1" by linarith
    moreover have "(of_nat ?n :: rat) = of_int \<lfloor>q\<rfloor>" using True by simp
    ultimately show ?thesis by simp
  qed
  ultimately have *: "q < 2 ^ bitlen ?n" by linarith
  have "0 < bitlen ?n" using n by (simp add: bitlen.simps [of ?n])
  then have "ilog2 q + 1 = int (bitlen ?n)" using True by (simp add: ilog2_def)
  then show ?thesis using * by (simp add: power_int_def)
next
  case False
  let ?m = "nat \<lceil>1 / q\<rceil> - 1"
  let ?k = "bitlen ?m"
  have q1: "1 < 1 / q" using False assms by simp
  then have c: "2 \<le> \<lceil>1 / q\<rceil>" by linarith
  then have m: "0 < ?m" by simp
  have k: "0 < ?k" using m by (rule bitlen_pos)
  have "(2::nat) ^ (?k - 1) \<le> ?m" using bitlen_bounds [OF m] by simp
  then have "(2::rat) ^ (?k - 1) \<le> of_nat ?m"
    by (metis of_nat_le_iff of_nat_numeral of_nat_power)
  moreover have "(of_nat ?m :: rat) = of_int \<lceil>1 / q\<rceil> - 1"
  proof -
    have "int ?m = \<lceil>1 / q\<rceil> - 1" using c by arith
    then have "(of_nat ?m :: rat) = of_int (\<lceil>1 / q\<rceil> - 1)"
      by (metis of_int_of_nat_eq)
    then show ?thesis by simp
  qed
  moreover have "of_int \<lceil>1 / q\<rceil> - 1 < 1 / q" by linarith
  ultimately have "(2::rat) ^ (?k - 1) < 1 / q" by linarith
  then have "q < 1 / 2 ^ (?k - 1)"
    using assms by (simp add: field_simps)
  moreover have "ilog2 q + 1 = - int (?k - 1)" using False k by (simp add: ilog2_def)
  ultimately show ?thesis
    by (simp add: power_int_minus_divide)
qed



lemma toDouble_0 [simp]: "toDouble 0 = 0"
  by (simp add: toDouble_def)



subsection \<open>A distance at a tie\<close>

text \<open>At the distance 150 the exact value \<open>1 - 150 / 30000 = 0.995\<close> lies halfway between
  two hundredths. The double that the source computes lies just below it, and
  \<^verbatim>\<open>toFixed(2)\<close> prints \<^verbatim>\<open>0.99\<close>.\<close>

lemmas bitlen_numeral =
  bitlen.simps [of "numeral k" for k] bitlen.simps [of 0] bitlen.simps [of 1] bitlen.simps [of "Suc 0"]

lemma roundHalfEven_eq:
  assumes "\<bar>q - of_int n\<bar> < 1 / 2"
  shows "roundHalfEven q = n"
proof (cases "of_int n \<le> q")
  case True
  then have "\<lfloor>q\<rfloor> = n" using assms by (simp add: floor_eq_iff; linarith?)
  then show ?thesis using assms True by (simp add: roundHalfEven_def Let_def)
next
  case False
  then have "\<lfloor>q\<rfloor> = n - 1" using assms by (simp add: floor_eq_iff; linarith?)
  moreover from this have "of_int \<lfloor>q\<rfloor> = (of_int n :: rat) - 1" by simp
  ultimately show ?thesis using assms False by (simp add: roundHalfEven_def Let_def)
qed

lemma quotient_at_150: "toDouble (1 / 200) = 5764607523034235 / 1152921504606846976"
proof -
  have "ilog2 (1 / 200) = - 8"
    by (simp add: ilog2_def bitlen_numeral)
  moreover have "(1 / 200 :: rat) / 2 powi (- 60) = 1152921504606846976 / 200"
    by simp
  moreover have "roundHalfEven (1152921504606846976 / 200) = 5764607523034235"
    by (rule roundHalfEven_eq) simp
  ultimately show ?thesis
    by (simp add: toDouble_def Let_def)
qed

lemma difference_at_150:
  "toDouble (1 - 5764607523034235 / 1152921504606846976) = 8962163258467287 / 9007199254740992"
proof -
  have "\<lceil>(1152921504606846976 / 1147156897083812741 :: rat)\<rceil> = 2"
    by (simp add: ceiling_eq_iff)
  then have "ilog2 (1 - 5764607523034235 / 1152921504606846976) = - 1"
    by (simp add: ilog2_def bitlen_numeral)
  moreover have "(1 - 5764607523034235 / 1152921504606846976 :: rat) / 2 powi (- 53) =
      1147156897083812741 / 128"
    by simp
  moreover have "roundHalfEven (1147156897083812741 / 128) = 8962163258467287"
    by (rule roundHalfEven_eq) simp
  ultimately show ?thesis
    by (simp add: toDouble_def Let_def)
qed

lemma score_at_150: "toFixed2 (rawScore 150) = 99"
proof -
  have "(of_int 150 / of_int NEARBY_EVENT_WINDOW_MS :: rat) = 1 / 200"
    by (simp add: NEARBY_EVENT_WINDOW_MS_def)
  moreover have "toFixed2 (8962163258467287 / 9007199254740992) = 99"
    by (simp add: toFixed2_def floor_eq_iff)
  ultimately show ?thesis
    unfolding rawScore_def by (simp only: quotient_at_150 difference_at_150)
qed

subsection \<open>Filter, sort and score\<close>








end
